theory Spec2Isabelle
  imports Complex_Main
begin

section \<open>JavaScript values\<close>

text \<open>
  The server (\<^verbatim>\<open>server/index.js\<close>) receives JSON request bodies and inspects the
  runtime type of several fields, so those fields are modelled as values of the
  datatype \<open>jsval\<close>. A JavaScript string is a \<^typ>\<open>string\<close>; every character stands
  for one code unit below 256. A number is a \<^typ>\<open>rat\<close>, the value of a finite double
  (there is no \<open>NaN\<close> and there are no infinities); the sums the handlers compute are
  rounded to the nearest double, see \<open>round_double\<close>. \<open>JObj\<close> is an object without
  inspected properties.
\<close>

datatype jsval =
    JUndefined
  | JNull
  | JBool bool
  | JNum rat
  | JStr string
  | JArr "jsval list"
  | JObj

text \<open>\<^verbatim>\<open>!!v\<close>: the falsy values are undefined, null, false, 0 and the empty string.\<close>

fun truthy :: "jsval \<Rightarrow> bool" where
  "truthy JUndefined = False"
| "truthy JNull = False"
| "truthy (JBool b) = b"
| "truthy (JNum x) = (x \<noteq> 0)"
| "truthy (JStr s) = (s \<noteq> [])"
| "truthy (JArr xs) = True"
| "truthy JObj = True"

fun nullish :: "jsval \<Rightarrow> bool" where
  "nullish JUndefined = True"
| "nullish JNull = True"
| "nullish v = False"

text \<open>\<^verbatim>\<open>a ?? b\<close> and \<^verbatim>\<open>a || b\<close>.\<close>

definition coalesce :: "jsval \<Rightarrow> jsval \<Rightarrow> jsval" where
  "coalesce a b = (if nullish a then b else a)"

definition js_or :: "jsval \<Rightarrow> jsval \<Rightarrow> jsval" where
  "js_or a b = (if truthy a then a else b)"

text \<open>
  \<^verbatim>\<open>a === b\<close>: primitives compare by value; two arrays or objects that come from
  different JSON documents are never the same reference.
\<close>

fun strict_eq :: "jsval \<Rightarrow> jsval \<Rightarrow> bool" where
  "strict_eq (JArr xs) b = False"
| "strict_eq JObj b = False"
| "strict_eq a b = (a = b)"

text \<open>\<^verbatim>\<open>xs[i]\<close> on an array: reading past the end gives undefined.\<close>

definition js_get :: "jsval list \<Rightarrow> nat \<Rightarrow> jsval" where
  "js_get xs i = (if i < length xs then xs ! i else JUndefined)"

section \<open>Strings and numbers\<close>

definition is_digit :: "char \<Rightarrow> bool" where
  "is_digit c = (c \<in> set ''0123456789'')"

definition digit_val :: "char \<Rightarrow> nat" where
  "digit_val c = of_char c - 48"

definition digit_char :: "nat \<Rightarrow> char" where
  "digit_char d = char_of (48 + d)"

text \<open>
  White space and line terminators of JavaScript among the code units below 256:
  TAB, LF, VT, FF, CR, SP and NBSP. \<^verbatim>\<open>String.prototype.trim\<close> removes them at both ends.
\<close>

definition js_ws :: "char \<Rightarrow> bool" where
  "js_ws c = ((of_char c :: nat) \<in> set [9, 10, 11, 12, 13, 32, 160])"

definition trim :: "string \<Rightarrow> string" where
  "trim s = rev (dropWhile js_ws (rev (dropWhile js_ws s)))"

text \<open>Decimal digits of a non-negative integer, most significant first.\<close>

function dec_digits :: "int \<Rightarrow> string" where
  "dec_digits n =
     (if n < 10 then [digit_char (nat n)]
      else dec_digits (n div 10) @ [digit_char (nat (n mod 10))])"
  by pat_completeness auto
termination
  by (relation "measure nat") auto

fun frac_digits :: "nat \<Rightarrow> rat \<Rightarrow> string" where
  "frac_digits 0 f = []"
| "frac_digits (Suc k) f =
     (if f = 0 then []
      else digit_char (nat \<lfloor>f * 10\<rfloor>) # frac_digits k (f * 10 - of_int \<lfloor>f * 10\<rfloor>))"

text \<open>
  \<^verbatim>\<open>String(x)\<close> for a number: sign, integer part and, for a non-integer, the decimal
  fraction (at most 17 digits). This is what JavaScript prints for integers below
  \<open>10\<^sup>2\<^sup>1\<close> and for short decimals; the exponent notation of very large and very small
  numbers is not modelled.
\<close>

definition Number_toString :: "rat \<Rightarrow> string" where
  "Number_toString x =
     (let a = \<bar>x\<bar>; ip = \<lfloor>a\<rfloor>; fp = a - of_int ip
      in (if x < 0 then ''-'' else '''') @ dec_digits ip
         @ (if fp = 0 then '''' else ''.'' @ frac_digits 17 fp))"

fun join_with :: "string \<Rightarrow> string list \<Rightarrow> string" where
  "join_with sep [] = []"
| "join_with sep [x] = x"
| "join_with sep (x # y # ys) = x @ sep @ join_with sep (y # ys)"

text \<open>
  \<^verbatim>\<open>String(v)\<close>. An array prints its elements joined by commas, undefined and null
  elements as the empty string (\<^verbatim>\<open>Array.prototype.join\<close>).
\<close>

fun ToString :: "jsval \<Rightarrow> string" where
  "ToString JUndefined = ''undefined''"
| "ToString JNull = ''null''"
| "ToString (JBool b) = (if b then ''true'' else ''false'')"
| "ToString (JNum x) = Number_toString x"
| "ToString (JStr s) = s"
| "ToString (JArr xs) = join_with '','' (map (\<lambda>x. if nullish x then [] else ToString x) xs)"
| "ToString JObj = ''[object Object]''"

definition js_join :: "string \<Rightarrow> jsval list \<Rightarrow> string" where
  "js_join sep xs = join_with sep (map (\<lambda>x. if nullish x then [] else ToString x) xs)"

text \<open>
  \<^verbatim>\<open>parseInt(s, 10)\<close>: skip leading white space, read an optional sign, then the
  longest run of decimal digits; \<open>None\<close> is \<open>NaN\<close> (no digit at that place).
\<close>

definition digits_val :: "string \<Rightarrow> nat" where
  "digits_val ds = foldl (\<lambda>acc c. 10 * acc + digit_val c) 0 ds"

definition parseInt10 :: "string \<Rightarrow> int option" where
  "parseInt10 s =
     (let t = dropWhile js_ws s;
          neg = (t \<noteq> [] \<and> hd t = CHR ''-'');
          u = (if t \<noteq> [] \<and> (hd t = CHR ''-'' \<or> hd t = CHR ''+'') then tl t else t);
          ds = takeWhile is_digit u
      in if ds = [] then None
         else Some (if neg then - int (digits_val ds) else int (digits_val ds)))"

text \<open>
  \<^verbatim>\<open>xs.slice(start, end)\<close> and \<^verbatim>\<open>xs.slice(start)\<close>: a negative index counts from the
  end, and both are clamped to the length.
\<close>

definition rel_index :: "int \<Rightarrow> nat \<Rightarrow> nat" where
  "rel_index k n = (if k < 0 then nat (max (int n + k) 0) else min (nat k) n)"

definition slice :: "int \<Rightarrow> int \<Rightarrow> 'a list \<Rightarrow> 'a list" where
  "slice start fin xs =
     (let from = rel_index start (length xs); to = rel_index fin (length xs)
      in take (to - from) (drop from xs))"

definition slice_from :: "int \<Rightarrow> 'a list \<Rightarrow> 'a list" where
  "slice_from start xs = drop (rel_index start (length xs)) xs"

definition startsWith :: "string \<Rightarrow> string \<Rightarrow> bool" where
  "startsWith p s = (take (length p) s = p)"

section \<open>Double-precision sums\<close>

text \<open>
  \<open>\<lfloor>log\<^sub>2 x\<rfloor>\<close> of a positive number: by halving from 1 upwards, by doubling below 1.
\<close>

function binade_up :: "rat \<Rightarrow> int" where
  "binade_up x = (if x < 2 then 0 else 1 + binade_up (x / 2))"
  by pat_completeness auto
termination
proof (relation "measure (\<lambda>x. nat \<lfloor>x\<rfloor>)")
  show "wf (measure (\<lambda>x :: rat. nat \<lfloor>x\<rfloor>))" by simp
next
  fix x :: rat
  assume "\<not> x < 2"
  then have "x / 2 \<le> x - 1" by simp
  then have "\<lfloor>x / 2\<rfloor> \<le> \<lfloor>x - 1\<rfloor>" by (rule floor_mono)
  moreover have "1 \<le> \<lfloor>x\<rfloor>" using \<open>\<not> x < 2\<close> by linarith
  ultimately show "(x / 2, x) \<in> measure (\<lambda>x. nat \<lfloor>x\<rfloor>)" by simp
qed

function binade_down :: "rat \<Rightarrow> int" where
  "binade_down x = (if 1 \<le> x \<or> x \<le> 0 then 0 else binade_down (2 * x) - 1)"
  by pat_completeness auto
termination
proof (relation "measure (\<lambda>x. nat \<lfloor>1 / x\<rfloor>)")
  show "wf (measure (\<lambda>x :: rat. nat \<lfloor>1 / x\<rfloor>))" by simp
next
  fix x :: rat
  assume a: "\<not> (1 \<le> x \<or> x \<le> 0)"
  then have p: "0 < x" "x < 1" by simp_all
  define y where "y = 1 / x"
  have y: "1 < y" using p by (simp add: y_def)
  have h: "1 / (2 * x) = y / 2" by (simp add: y_def)
  have one: "1 \<le> \<lfloor>y\<rfloor>" using y by linarith
  have "\<lfloor>y / 2\<rfloor> < \<lfloor>y\<rfloor>"
  proof (cases "2 \<le> y")
    case True
    then have "y / 2 \<le> y - 1" by simp
    then have "\<lfloor>y / 2\<rfloor> \<le> \<lfloor>y - 1\<rfloor>" by (rule floor_mono)
    also have "\<dots> = \<lfloor>y\<rfloor> - 1" by simp
    finally show ?thesis by simp
  next
    case False
    then have "y / 2 < 1" by simp
    moreover have "0 \<le> y / 2" using y by simp
    ultimately have "\<lfloor>y / 2\<rfloor> = 0" by linarith
    then show ?thesis using one by simp
  qed
  then have "nat \<lfloor>1 / (2 * x)\<rfloor> < nat \<lfloor>1 / x\<rfloor>"
    unfolding h using one by (simp add: y_def)
  then show "(2 * x, x) \<in> measure (\<lambda>x. nat \<lfloor>1 / x\<rfloor>)"
    unfolding in_measure .
qed

definition binade :: "rat \<Rightarrow> int" where
  "binade x = (if 1 \<le> x then binade_up x else binade_down x)"

text \<open>The nearest integer, a tie going to the even one.\<close>

definition round_half_even :: "rat \<Rightarrow> int" where
  "round_half_even x =
     (let f = \<lfloor>x\<rfloor>; d = x - of_int f
      in if d < 1 / 2 then f else if 1 / 2 < d then f + 1 else if even f then f else f + 1)"

text \<open>
  The double nearest to \<open>x\<close> (IEEE 754 binary64, round to nearest, ties to even): 53
  significant bits in the binade of \<open>x\<close>, and the fixed spacing \<open>2\<^sup>-\<^sup>1\<^sup>0\<^sup>7\<^sup>4\<close> below
  \<open>2\<^sup>-\<^sup>1\<^sup>0\<^sup>2\<^sup>2\<close>. A sum of two doubles in JavaScript is \<open>round_double\<close> of the exact sum;
  a sum that overflows to infinity is outside the model.
\<close>

definition round_double :: "rat \<Rightarrow> rat" where
  "round_double x =
     (if x = 0 then 0
      else
        let e = max (binade \<bar>x\<bar>) (- 1022);
            q = 2 powi (e - 52)
        in of_int (round_half_even (x / q)) * q)"

text \<open>
  \<^verbatim>\<open>a + b\<close> on two numbers. Each operand is the double it denotes (a double is its own
  rounding; a decimal numeral such as 0.1 is read, as \<^verbatim>\<open>JSON.parse\<close> reads it, as the double
  nearest to it), and the result is the double nearest to the exact sum.
\<close>

definition double_sum :: "rat \<Rightarrow> rat \<Rightarrow> rat" where
  "double_sum a b = round_double (round_double a + round_double b)"

text \<open>
  \<^verbatim>\<open>(c || 0) + k\<close> for a number \<open>k\<close>, as the consume handler adds to \<open>consumedCount\<close>: a
  falsy \<open>c\<close> counts as 0, \<open>true\<close> as 1, and a string, an array or an object is
  concatenated with the text of \<open>k\<close>.
\<close>

fun or_zero_plus :: "jsval \<Rightarrow> rat \<Rightarrow> jsval" where
  "or_zero_plus (JNum x) k = JNum (double_sum x k)"
| "or_zero_plus (JBool b) k = JNum (double_sum (if b then 1 else 0) k)"
| "or_zero_plus (JStr s) k =
     (if s = [] then JNum (double_sum 0 k) else JStr (s @ Number_toString k))"
| "or_zero_plus (JArr xs) k = JStr (ToString (JArr xs) @ Number_toString k)"
| "or_zero_plus JObj k = JStr (ToString JObj @ Number_toString k)"
| "or_zero_plus JUndefined k = JNum (double_sum 0 k)"
| "or_zero_plus JNull k = JNum (double_sum 0 k)"

section \<open>Normalizers\<close>

text \<open>
  \<^verbatim>\<open>normalizeTimesPerDay(value)\<close>: a positive number is returned as it is; anything
  else goes through \<^verbatim>\<open>parseInt(value, 10)\<close>, and the result is 1 unless the parsed
  integer is positive. \<^verbatim>\<open>Number.isFinite(parsed)\<close> rejects \<open>NaN\<close>, here \<open>None\<close>; a run of
  digits so long that JavaScript reads it as infinity is outside the model.
\<close>

definition normalizeTimesPerDay :: "jsval \<Rightarrow> rat" where
  "normalizeTimesPerDay v =
     (case (case v of JNum x \<Rightarrow> if x > 0 then Some x else None | _ \<Rightarrow> None) of
        Some x \<Rightarrow> x
      | None \<Rightarrow>
          (case parseInt10 (ToString v) of
             Some parsed \<Rightarrow> if parsed > 0 then of_int parsed else 1
           | None \<Rightarrow> 1))"

text \<open>
  \<^verbatim>\<open>formatPhoneNumber(phone)\<close>: \<^verbatim>\<open>String(phone).replace(/\D/g, '')\<close> keeps the decimal
  digits.
\<close>

definition formatPhoneNumber :: "jsval \<Rightarrow> string" where
  "formatPhoneNumber phone =
     (if \<not> truthy phone then ''''
      else
        let digits = filter is_digit (ToString phone)
        in if digits = [] then ''''
           else if startsWith ''91'' digits \<and> length digits \<ge> 12
             then ''+'' @ slice 0 12 digits
           else
             let lastTen = slice_from (- 10) digits
             in if lastTen \<noteq> [] then ''+91'' @ lastTen else '''')"

text \<open>
  The regular expression \<^verbatim>\<open>/^([01]\d|2[0-3]):([0-5]\d)$/\<close>, with its two groups.
\<close>

definition char_class :: "string \<Rightarrow> char \<Rightarrow> bool" where
  "char_class cs c = (c \<in> set cs)"

fun time_regex :: "string \<Rightarrow> (string \<times> string) option" where
  "time_regex [h1, h2, c, m1, m2] =
     (if ((char_class ''01'' h1 \<and> is_digit h2) \<or> (h1 = CHR ''2'' \<and> char_class ''0123'' h2))
         \<and> c = CHR '':'' \<and> char_class ''012345'' m1 \<and> is_digit m2
      then Some ([h1, h2], [m1, m2]) else None)"
| "time_regex s = None"

definition normalizeTime :: "jsval \<Rightarrow> string" where
  "normalizeTime v =
     (let fallback = ''08:00''
      in case v of
           JStr s \<Rightarrow>
             if s = [] then fallback
             else (case time_regex (trim s) of
                     Some (h, m) \<Rightarrow> h @ '':'' @ m
                   | None \<Rightarrow> fallback)
         | _ \<Rightarrow> fallback)"

text \<open>
  The loop of \<^verbatim>\<open>normalizeDoseTimes\<close>:
  \<^verbatim>\<open>for (let i = 0; i < count; i++) result.push(normalizeTime(provided[i] ?? result[i - 1] ?? '08:00'))\<close>.
  \<open>result[i - 1]\<close> is undefined at \<open>i = 0\<close>.
\<close>

definition prev_entry :: "string list \<Rightarrow> nat \<Rightarrow> jsval" where
  "prev_entry result i = (if i = 0 then JUndefined else js_get (map JStr result) (i - 1))"

function dose_loop :: "rat \<Rightarrow> jsval list \<Rightarrow> nat \<Rightarrow> string list \<Rightarrow> string list" where
  "dose_loop count provided i result =
     (if of_nat i < count
      then dose_loop count provided (Suc i)
             (result @ [normalizeTime
                (coalesce (js_get provided i) (coalesce (prev_entry result i) (JStr ''08:00'')))])
      else result)"
  by pat_completeness auto
termination
proof (relation "measure (\<lambda>(count, provided, i, result). nat \<lceil>count\<rceil> - i)")
  show "wf (measure (\<lambda>(count, provided, i, result). nat \<lceil>count\<rceil> - i))"
    by simp
next
  fix count :: rat and provided :: "jsval list" and i :: nat and result :: "string list"
  assume "of_nat i < count"
  then have "int i < \<lceil>count\<rceil>"
    by (simp add: less_ceiling_iff)
  then show "((count, provided, Suc i,
       result @ [normalizeTime
          (coalesce (js_get provided i) (coalesce (prev_entry result i) (JStr ''08:00'')))]),
      (count, provided, i, result))
    \<in> measure (\<lambda>(count, provided, i, result). nat \<lceil>count\<rceil> - i)"
    by simp
qed

definition normalizeDoseTimes :: "jsval \<Rightarrow> jsval \<Rightarrow> string list" where
  "normalizeDoseTimes timesPerDay incoming =
     (let count = normalizeTimesPerDay timesPerDay;
          provided = (case incoming of JArr xs \<Rightarrow> xs | _ \<Rightarrow> [])
      in dose_loop count provided 0 [])"

section \<open>Persisted state\<close>

text \<open>
  The document kept in \<^verbatim>\<open>db.json\<close>. A field that the server stores as it receives
  it is a \<open>jsval\<close>; a field whose type the server's own code fixes has that type
  (\<open>supply\<close> and \<open>timesPerDay\<close> are numbers, \<open>doseTimes\<close> is a list of strings, the
  identifiers the server draws are strings). \<open>consumedCount\<close> is a \<open>jsval\<close>:
  \<^verbatim>\<open>POST /api/members\<close> stores \<^verbatim>\<open>med.consumedCount || 0\<close> with no test of its type.
\<close>

record user =
  user_id :: string
  username :: jsval
  password :: jsval
  user_phone :: string
  role :: string
  user_familyId :: string

record family =
  family_id :: string
  headUserIds :: "string list"

record medication =
  med_id :: jsval
  med_name :: jsval
  dosage :: jsval
  med_supply :: rat
  consumedCount :: jsval
  timesPerDay :: rat
  doseTimes :: "string list"
  intakeTime :: jsval

record member =
  member_id :: string
  member_familyId :: string
  member_name :: jsval
  ageGroup :: jsval
  member_phone :: string
  medications :: "medication list"

record logentry =
  log_id :: string
  log_familyId :: string
  timestamp :: string
  message :: string

record database =
  users :: "user list"
  families :: "family list"
  members :: "member list"
  logs :: "logentry list"

text \<open>
  The process: the document \<open>db\<close>, the session map, and the sources of the values
  the server draws from outside (\<^verbatim>\<open>crypto.randomUUID()\<close>, \<^verbatim>\<open>crypto.randomBytes\<close>,
  \<^verbatim>\<open>new Date()\<close>), each with the number of values drawn so far. A reading of the
  clock is the pair of its ISO-8601 text and its local \<open>HH:MM\<close> text.
\<close>

record server =
  db :: database
  sessions :: "string \<rightharpoonup> string"
  uuid_source :: "nat \<Rightarrow> string"
  uuids_drawn :: nat
  token_source :: "nat \<Rightarrow> string"
  tokens_drawn :: nat
  clock_source :: "nat \<Rightarrow> string \<times> string"
  clock_reads :: nat

definition randomUUID :: "server \<Rightarrow> string \<times> server" where
  "randomUUID s = (uuid_source s (uuids_drawn s), s\<lparr>uuids_drawn := Suc (uuids_drawn s)\<rparr>)"

definition createToken :: "server \<Rightarrow> string \<times> server" where
  "createToken s = (token_source s (tokens_drawn s), s\<lparr>tokens_drawn := Suc (tokens_drawn s)\<rparr>)"

definition new_Date :: "server \<Rightarrow> (string \<times> string) \<times> server" where
  "new_Date s = (clock_source s (clock_reads s), s\<lparr>clock_reads := Suc (clock_reads s)\<rparr>)"

text \<open>\<^verbatim>\<open>new Date().toISOString()\<close> and \<^verbatim>\<open>currentTimeHHMM()\<close>.\<close>

definition now_ISO :: "server \<Rightarrow> string \<times> server" where
  "now_ISO s = (let (t, s') = new_Date s in (fst t, s'))"

definition currentTimeHHMM :: "server \<Rightarrow> string \<times> server" where
  "currentTimeHHMM s = (let (t, s') = new_Date s in (snd t, s'))"

text \<open>\<^verbatim>\<open>db.logs.unshift(e1, ..., en)\<close> puts the entries, in this order, at the front.\<close>

definition unshift_logs :: "logentry list \<Rightarrow> server \<Rightarrow> server" where
  "unshift_logs es s = s\<lparr>db := (db s)\<lparr>logs := es @ logs (db s)\<rparr>\<rparr>"

definition isHeadOfFamily :: "user \<Rightarrow> bool" where
  "isHeadOfFamily u = (role u = ''HEAD_OF_FAMILY'')"

text \<open>\<^verbatim>\<open>xs.findIndex(p)\<close>; \<open>None\<close> is \<open>-1\<close>.\<close>

fun findIndex :: "('a \<Rightarrow> bool) \<Rightarrow> 'a list \<Rightarrow> nat option" where
  "findIndex P [] = None"
| "findIndex P (x # xs) = (if P x then Some 0 else map_option Suc (findIndex P xs))"

text \<open>
  \<^verbatim>\<open>xs.find(p)\<close> returns the first matching object itself, and the handlers assign to
  its fields; \<open>update_first\<close> is that assignment on the list that holds the object.
\<close>

fun update_first :: "('a \<Rightarrow> bool) \<Rightarrow> ('a \<Rightarrow> 'a) \<Rightarrow> 'a list \<Rightarrow> 'a list" where
  "update_first P f [] = []"
| "update_first P f (x # xs) = (if P x then f x # xs else x # update_first P f xs)"

definition store_medication ::
    "(member \<Rightarrow> bool) \<Rightarrow> (medication \<Rightarrow> bool) \<Rightarrow> medication \<Rightarrow> server \<Rightarrow> server" where
  "store_medication P Q med s =
     s\<lparr>db := (db s)\<lparr>members :=
        update_first P (\<lambda>m. m\<lparr>medications := update_first Q (\<lambda>x. med) (medications m)\<rparr>)
          (members (db s))\<rparr>\<rparr>"

text \<open>The medication a pair of identifiers names within a family, as the handlers find it.\<close>

definition lookup_medication :: "server \<Rightarrow> string \<Rightarrow> jsval \<Rightarrow> jsval \<Rightarrow> medication option" where
  "lookup_medication s familyId memberId medId =
     (case find (\<lambda>m. strict_eq (JStr (member_id m)) memberId \<and> member_familyId m = familyId)
             (members (db s)) of
        None \<Rightarrow> None
      | Some m \<Rightarrow> find (\<lambda>x. strict_eq (med_id x) medId) (medications m))"

section \<open>Requests and responses\<close>

record med_body =
  mb_id :: jsval
  mb_name :: jsval
  mb_dosage :: jsval
  mb_supply :: jsval
  mb_consumedCount :: jsval
  mb_timesPerDay :: jsval
  mb_doseTimes :: jsval
  mb_intakeTime :: jsval

record member_body =
  b_name :: jsval
  b_ageGroup :: jsval
  b_phone :: jsval
  b_medications :: "med_body list"

record register_body =
  rb_username :: jsval
  rb_password :: jsval
  rb_phone :: jsval
  rb_isHead :: jsval

record trigger_body =
  tb_memberId :: jsval
  tb_medicationId :: jsval
  tb_doseTime :: jsval

datatype response =
    Failure nat string
  | MemberReply nat member
  | AuthReply string user
  | ConsumeReply string string rat jsval rat "string list"
  | TriggerReply member medication string string "string list"

fun status :: "response \<Rightarrow> nat" where
  "status (Failure code msg) = code"
| "status (MemberReply code m) = code"
| "status (AuthReply token u) = 200"
| "status (ConsumeReply memberId medId remaining consumed tpd dts) = 200"
| "status (TriggerReply m med doseTime reminderTime events) = 200"

fun reply_events :: "response \<Rightarrow> string list" where
  "reply_events (TriggerReply m med doseTime reminderTime events) = events"
| "reply_events r = []"

section \<open>Handlers\<close>

text \<open>
  Every handler below but \<open>register\<close> runs behind \<^verbatim>\<open>requireAuth\<close>; its argument
  \<open>user\<close> is \<^verbatim>\<open>req.user\<close>, the user the bearer token resolved to.
\<close>

text \<open>\<^verbatim>\<open>POST /api/auth/register\<close>.\<close>

definition register :: "server \<Rightarrow> register_body \<Rightarrow> response \<times> server" where
  "register s body =
     (let isHead = (if rb_isHead body = JUndefined then JBool True else rb_isHead body)
      in if \<not> truthy (rb_username body) \<or> \<not> truthy (rb_password body)
           then (Failure 400 ''Username and password are required'', s)
         else if list_ex (\<lambda>u. strict_eq (username u) (rb_username body)) (users (db s))
           then (Failure 409 ''Username already exists'', s)
         else
           let (familyId, s1) = randomUUID s;
               (uid, s2) = randomUUID s1;
               u = \<lparr>user_id = uid, username = rb_username body, password = rb_password body,
                    user_phone = formatPhoneNumber (rb_phone body),
                    role = (if truthy isHead then ''HEAD_OF_FAMILY'' else ''ADULT''),
                    user_familyId = familyId\<rparr>;
               s3 = s2\<lparr>db := (db s2)\<lparr>users := users (db s2) @ [u],
                      families := families (db s2)
                        @ [\<lparr>family_id = familyId, headUserIds = [uid]\<rparr>]\<rparr>\<rparr>;
               (token, s4) = createToken s3;
               s5 = s4\<lparr>sessions := (sessions s4)(token \<mapsto> uid)\<rparr>
           in (AuthReply token u, s5))"

text \<open>\<^verbatim>\<open>med.id || crypto.randomUUID()\<close>.\<close>

definition med_identifier :: "jsval \<Rightarrow> server \<Rightarrow> jsval \<times> server" where
  "med_identifier i s =
     (if truthy i then (i, s) else (let (u, s') = randomUUID s in (JStr u, s')))"

text \<open>
  \<^verbatim>\<open>v.length\<close> (\<^verbatim>\<open>v?.length\<close> for undefined and null): arrays and strings have a
  length, nothing else modelled has one.
\<close>

fun js_length :: "jsval \<Rightarrow> jsval" where
  "js_length (JArr xs) = JNum (of_nat (length xs))"
| "js_length (JStr s) = JNum (of_nat (length s))"
| "js_length v = JUndefined"

text \<open>\<^verbatim>\<open>v > 0\<close> where \<open>v\<close> is a length: undefined is not greater than 0.\<close>

fun js_positive :: "jsval \<Rightarrow> bool" where
  "js_positive (JNum x) = (x > 0)"
| "js_positive v = False"

text \<open>The \<^verbatim>\<open>medications.map(...)\<close> of \<^verbatim>\<open>POST /api/members\<close>.\<close>

fun create_meds :: "med_body list \<Rightarrow> server \<Rightarrow> medication list \<times> server" where
  "create_meds [] s = ([], s)"
| "create_meds (med # rest) s =
     (let tpd = normalizeTimesPerDay (mb_timesPerDay med);
          (i, s1) = med_identifier (mb_id med) s;
          m = \<lparr>med_id = i, med_name = mb_name med, dosage = mb_dosage med,
               med_supply = (case mb_supply med of JNum v \<Rightarrow> v | _ \<Rightarrow> 0),
               consumedCount = js_or (mb_consumedCount med) (JNum 0),
               timesPerDay = tpd,
               doseTimes = normalizeDoseTimes (JNum tpd)
                 (if truthy (js_length (mb_doseTimes med)) then mb_doseTimes med
                  else JArr [mb_intakeTime med]),
               intakeTime = JUndefined\<rparr>;
          (ms, s2) = create_meds rest s1
      in (m # ms, s2))"

text \<open>\<^verbatim>\<open>POST /api/members\<close>.\<close>

definition createMember :: "server \<Rightarrow> user \<Rightarrow> member_body \<Rightarrow> response \<times> server" where
  "createMember s user body =
     (if \<not> isHeadOfFamily user
        then (Failure 403 ''Only head of family can add members'', s)
      else if \<not> truthy (b_name body) \<or> \<not> truthy (b_ageGroup body)
        then (Failure 400 ''Name and ageGroup are required'', s)
      else
        let (memberId, s1) = randomUUID s;
            (meds, s2) = create_meds (b_medications body) s1;
            m = \<lparr>member_id = memberId, member_familyId = user_familyId user,
                 member_name = b_name body, ageGroup = b_ageGroup body,
                 member_phone = formatPhoneNumber (b_phone body), medications = meds\<rparr>;
            s3 = s2\<lparr>db := (db s2)\<lparr>members := members (db s2) @ [m]\<rparr>\<rparr>;
            (logId, s4) = randomUUID s3;
            (now, s5) = now_ISO s4;
            s6 = unshift_logs [\<lparr>log_id = logId, log_familyId = user_familyId user,
                   timestamp = now,
                   message = ''Added new family member: '' @ ToString (member_name m)\<rparr>] s5
        in (MemberReply 201 m, s6))"

text \<open>The \<^verbatim>\<open>medications.map(...)\<close> of \<^verbatim>\<open>PUT /api/members/:id\<close>.\<close>

fun update_meds :: "medication list \<Rightarrow> med_body list \<Rightarrow> server \<Rightarrow> medication list \<times> server" where
  "update_meds existing [] s = ([], s)"
| "update_meds existing (med # rest) s =
     (let existingMed = find (\<lambda>x. strict_eq (med_id x) (mb_id med)) existing;
          tpd = normalizeTimesPerDay
                  (coalesce (mb_timesPerDay med)
                     (case existingMed of Some e \<Rightarrow> JNum (timesPerDay e) | None \<Rightarrow> JNum 1));
          (i, s1) = med_identifier (mb_id med) s;
          m = \<lparr>med_id = i, med_name = mb_name med, dosage = mb_dosage med,
               med_supply = (case mb_supply med of
                           JNum v \<Rightarrow> v
                         | _ \<Rightarrow> (case existingMed of Some e \<Rightarrow> med_supply e | None \<Rightarrow> 0)),
               consumedCount = (case existingMed of
                                  Some e \<Rightarrow> consumedCount e | None \<Rightarrow> JNum 0),
               timesPerDay = tpd,
               doseTimes = normalizeDoseTimes (JNum tpd)
                 (if truthy (mb_doseTimes med) \<and> js_positive (js_length (mb_doseTimes med))
                  then mb_doseTimes med
                  else (case existingMed of
                          Some e \<Rightarrow> JArr (map JStr (doseTimes e))
                        | None \<Rightarrow> JUndefined)),
               intakeTime = JUndefined\<rparr>;
          (ms, s2) = update_meds existing rest s1
      in (m # ms, s2))"

text \<open>\<^verbatim>\<open>PUT /api/members/:id\<close>.\<close>

definition updateMember :: "server \<Rightarrow> user \<Rightarrow> string \<Rightarrow> member_body \<Rightarrow> response \<times> server" where
  "updateMember s user memberId body =
     (if \<not> isHeadOfFamily user
        then (Failure 403 ''Only head of family can update members'', s)
      else
        case findIndex (\<lambda>m. member_id m = memberId \<and> member_familyId m = user_familyId user)
               (members (db s)) of
          None \<Rightarrow> (Failure 404 ''Member not found'', s)
        | Some idx \<Rightarrow>
            let existing = members (db s) ! idx;
                (meds, s1) = update_meds (medications existing) (b_medications body) s;
                updated = existing\<lparr>
                  member_name := coalesce (b_name body) (member_name existing),
                  ageGroup := coalesce (b_ageGroup body) (ageGroup existing),
                  member_phone := (if b_phone body \<noteq> JUndefined
                                   then formatPhoneNumber (b_phone body)
                                   else member_phone existing),
                  medications := meds\<rparr>;
                s2 = s1\<lparr>db := (db s1)\<lparr>members := (members (db s1))[idx := updated]\<rparr>\<rparr>;
                (logId, s3) = randomUUID s2;
                (now, s4) = now_ISO s3;
                s5 = unshift_logs [\<lparr>log_id = logId, log_familyId = user_familyId user,
                       timestamp = now,
                       message = ''Updated family member: '' @ ToString (member_name updated)\<rparr>] s4
            in (MemberReply 200 updated, s5))"

text \<open>
  The two log entries of the consume handler: the dose entry, and the low-supply
  warning.
\<close>

definition dose_taken_log ::
    "string \<Rightarrow> string \<Rightarrow> string \<Rightarrow> medication \<Rightarrow> member \<Rightarrow> logentry" where
  "dose_taken_log i familyId t med member =
     \<lparr>log_id = i, log_familyId = familyId, timestamp = t,
      message = ''Dose taken: '' @ ToString (med_name med) @ '' (''
        @ ToString (member_name member) @ ''). Remaining: ''
        @ Number_toString (med_supply med)\<rparr>"

definition low_supply_log ::
    "string \<Rightarrow> string \<Rightarrow> string \<Rightarrow> medication \<Rightarrow> member \<Rightarrow> logentry" where
  "low_supply_log i familyId t med member =
     \<lparr>log_id = i, log_familyId = familyId, timestamp = t,
      message = ''WARNING: Low supply for '' @ ToString (med_name med) @ '' (''
        @ ToString (member_name member) @ ''). Notify head of family.''\<rparr>"

text \<open>
  \<^verbatim>\<open>POST /api/members/:memberId/medications/:medId/consume\<close>. The two identifiers come
  from the URL and are strings; \<open>change\<close> is the number in the body, \<open>None\<close> when the
  body has none (\<^verbatim>\<open>const { change = -1 } = req.body || {}\<close>). The two sums are sums
  of doubles.
\<close>

definition consume ::
    "server \<Rightarrow> user \<Rightarrow> string \<Rightarrow> string \<Rightarrow> rat option \<Rightarrow> response \<times> server" where
  "consume s user memberId medId body_change =
     (let change = (case body_change of None \<Rightarrow> - 1 | Some c \<Rightarrow> c);
          P = (\<lambda>m. strict_eq (JStr (member_id m)) (JStr memberId)
                     \<and> member_familyId m = user_familyId user);
          Q = (\<lambda>x. strict_eq (med_id x) (JStr medId))
      in case find P (members (db s)) of
           None \<Rightarrow> (Failure 404 ''Member not found'', s)
         | Some member \<Rightarrow>
             (case find Q (medications member) of
                None \<Rightarrow> (Failure 404 ''Medication not found'', s)
              | Some med0 \<Rightarrow>
                  let oldSupply = med_supply med0;
                      newSupply = max 0 (double_sum oldSupply change);
                      med = med0\<lparr>med_supply := newSupply,
                              consumedCount :=
                                or_zero_plus (consumedCount med0)
                                  (if change < 0 then - change else 0)\<rparr>;
                      s1 = store_medication P Q med s;
                      (id1, s2) = randomUUID s1;
                      (t1, s3) = now_ISO s2;
                      s4 = unshift_logs [dose_taken_log id1 (user_familyId user) t1 med member] s3;
                      s7 = (if newSupply \<le> 5 \<and> oldSupply > 5
                            then
                              let (id2, s5) = randomUUID s4;
                                  (t2, s6) = now_ISO s5
                              in unshift_logs
                                   [low_supply_log id2 (user_familyId user) t2 med member] s6
                            else s4)
                  in (ConsumeReply memberId medId (med_supply med) (consumedCount med)
                        (if timesPerDay med \<noteq> 0 then timesPerDay med else 1) (doseTimes med),
                      s7)))"

text \<open>The low-supply warning among the log entries.\<close>

definition is_low_supply_warning :: "logentry \<Rightarrow> bool" where
  "is_low_supply_warning e = startsWith ''WARNING: Low supply for '' (message e)"

text \<open>
  \<^verbatim>\<open>getFamilyHeads(familyId)\<close>: the users the family's head ids name, those that exist.
\<close>

definition getFamilyHeads :: "database \<Rightarrow> string \<Rightarrow> user list" where
  "getFamilyHeads d familyId =
     (case find (\<lambda>f. family_id f = familyId) (families d) of
        None \<Rightarrow> []
      | Some f \<Rightarrow> List.map_filter (\<lambda>i. find (\<lambda>u. user_id u = i) (users d)) (headUserIds f))"

text \<open>The event strings and log entries of the reminder trigger.\<close>

definition minor_event :: "medication \<Rightarrow> rat \<Rightarrow> string \<Rightarrow> string \<Rightarrow> string \<Rightarrow> string" where
  "minor_event medication tpd doseTime headNames reminderTime =
     ''Minor reminder: '' @ ToString (med_name medication) @ '' ('' @ Number_toString tpd
       @ ''x/day, scheduled dose at '' @ doseTime @ ''). Calling head(s) '' @ headNames
       @ '' now ('' @ reminderTime @ '').''"

definition minor_log ::
    "string \<Rightarrow> string \<Rightarrow> member \<Rightarrow> medication \<Rightarrow> string \<Rightarrow> string \<Rightarrow> logentry" where
  "minor_log i t member medication doseTime headNames =
     \<lparr>log_id = i, log_familyId = member_familyId member, timestamp = t,
      message = ''REMINDER (Minor): Immediate call to head(s) '' @ headNames @ '' for ''
        @ ToString (member_name member) @ [CHR 0x27] @ ''s '' @ ToString (med_name medication)
        @ '' dose scheduled '' @ doseTime @ ''.''\<rparr>"

definition adult_events :: "member \<Rightarrow> medication \<Rightarrow> string \<Rightarrow> string \<Rightarrow> string \<Rightarrow> string list" where
  "adult_events member medication doseTime headNames reminderTime =
     [''Calling '' @ ToString (member_name member) @ '' now ('' @ reminderTime @ '') for ''
        @ ToString (med_name medication) @ '' dose scheduled '' @ doseTime @ ''.'',
      ''Waiting for patient to pick up...'',
      ''Call missed. Waiting briefly before retry...'',
      ''Second call missed. Escalating to head(s): '' @ headNames @ ''.'']"

definition adult_call_log ::
    "string \<Rightarrow> string \<Rightarrow> member \<Rightarrow> medication \<Rightarrow> string \<Rightarrow> string \<Rightarrow> logentry" where
  "adult_call_log i t member medication doseTime reminderTime =
     \<lparr>log_id = i, log_familyId = member_familyId member, timestamp = t,
      message = ''REMINDER (Adult): Immediate call to '' @ ToString (member_name member)
        @ '' at '' @ reminderTime @ '' for '' @ ToString (med_name medication)
        @ '' dose scheduled '' @ doseTime @ ''.''\<rparr>"

definition adult_escalation_log :: "string \<Rightarrow> string \<Rightarrow> member \<Rightarrow> string \<Rightarrow> logentry" where
  "adult_escalation_log i t member headNames =
     \<lparr>log_id = i, log_familyId = member_familyId member, timestamp = t,
      message = ''REMINDER (Adult): 2 missed calls for '' @ ToString (member_name member)
        @ '', escalating to head(s) '' @ headNames @ ''.''\<rparr>"

definition backup_event :: "string \<Rightarrow> string" where
  "backup_event headNames =
     ''If first head does not respond, contacting backup head(s): '' @ headNames @ ''.''"

definition head_escalation_log :: "string \<Rightarrow> string \<Rightarrow> member \<Rightarrow> string \<Rightarrow> logentry" where
  "head_escalation_log i t member headNames =
     \<lparr>log_id = i, log_familyId = member_familyId member, timestamp = t,
      message = ''HEAD ESCALATION: Primary head did not respond, attempting other head(s): ''
        @ headNames @ ''.''\<rparr>"

text \<open>
  \<^verbatim>\<open>POST /api/reminders/trigger\<close>. The request to the external call service that
  follows \<^verbatim>\<open>saveDb\<close> changes neither the events nor the state (its failure is caught and
  printed) and is not modelled; \<^verbatim>\<open>intervalMinutes\<close> is computed and never used.
\<close>

definition trigger :: "server \<Rightarrow> user \<Rightarrow> trigger_body \<Rightarrow> response \<times> server" where
  "trigger s user body =
     (let P = (\<lambda>m. strict_eq (JStr (member_id m)) (tb_memberId body)
                     \<and> member_familyId m = user_familyId user);
          Q = (\<lambda>x. strict_eq (med_id x) (tb_medicationId body))
      in case find P (members (db s)) of
           None \<Rightarrow> (Failure 404 ''Member not found'', s)
         | Some member \<Rightarrow>
             (case find Q (medications member) of
                None \<Rightarrow> (Failure 400 ''Medication not found for member'', s)
              | Some med0 \<Rightarrow>
                  let medication =
                        (if doseTimes med0 = []
                         then med0\<lparr>doseTimes := [normalizeTime (intakeTime med0)],
                                 timesPerDay :=
                                   (if timesPerDay med0 \<noteq> 0 then timesPerDay med0 else 1)\<rparr>
                         else med0);
                      s1 = store_medication P Q medication s;
                      normalizedDoseTime =
                        (if truthy (tb_doseTime body) then normalizeTime (tb_doseTime body)
                         else (case doseTimes medication of
                                 [] \<Rightarrow> ''08:00''
                               | t # ts \<Rightarrow> if t \<noteq> [] then t else ''08:00''));
                      heads = getFamilyHeads (db s1) (member_familyId member);
                      joined = js_join '', '' (map username heads);
                      headNames = (if joined \<noteq> [] then joined else ''Head of family'');
                      tpd = (if timesPerDay medication \<noteq> 0 then timesPerDay medication else 1);
                      (reminderTime, s2) = currentTimeHHMM s1;
                      (events, s6) =
                        (if ageGroup member = JStr ''Minor''
                         then
                           let (id1, s3) = randomUUID s2;
                               (t1, s4) = now_ISO s3
                           in ([minor_event medication tpd normalizedDoseTime headNames reminderTime],
                               unshift_logs
                                 [minor_log id1 t1 member medication normalizedDoseTime headNames] s4)
                         else
                           let (now, s3) = now_ISO s2;
                               (id1, s4) = randomUUID s3;
                               (id2, s5) = randomUUID s4
                           in (adult_events member medication normalizedDoseTime headNames reminderTime,
                               unshift_logs
                                 [adult_call_log id1 now member medication normalizedDoseTime
                                    reminderTime,
                                  adult_escalation_log id2 now member headNames] s5));
                      (events', s9) =
                        (if length heads > 1
                         then
                           let (id3, s7) = randomUUID s6;
                               (t3, s8) = now_ISO s7
                           in (events @ [backup_event headNames],
                               unshift_logs [head_escalation_log id3 t3 member headNames] s8)
                         else (events, s6))
                  in (TriggerReply member medication normalizedDoseTime reminderTime events', s9)))"

section \<open>Specifications the code is compared with\<close>

text \<open>
  The strict \<open>HH:MM\<close> shape: two digits, a colon, two digits, the hours from 00 to 23
  and the minutes from 00 to 59.
\<close>

definition is_HHMM :: "string \<Rightarrow> bool" where
  "is_HHMM s =
     (case s of
        [h1, h2, c, m1, m2] \<Rightarrow>
          is_digit h1 \<and> is_digit h2 \<and> c = CHR '':'' \<and> is_digit m1 \<and> is_digit m2
          \<and> 10 * digit_val h1 + digit_val h2 < 24
          \<and> 10 * digit_val m1 + digit_val m2 < 60
      | _ \<Rightarrow> False)"

text \<open>The candidates \<^verbatim>\<open>normalizeDoseTimes\<close> reads: the array, or nothing.\<close>

definition provided_of :: "jsval \<Rightarrow> jsval list" where
  "provided_of incoming = (case incoming of JArr xs \<Rightarrow> xs | _ \<Rightarrow> [])"

text \<open>
  The phone normalizer as section 4.1 of the specification words it: strip the
  non-digits; digits that start with 91 and number at least 12 give \<open>+\<close> and the first
  12 digits; otherwise \<open>+91\<close> and the last 10 digits (all of them when there are fewer);
  no digit gives the empty string.
\<close>

definition phone_spec :: "string \<Rightarrow> string" where
  "phone_spec s =
     (let d = filter is_digit s
      in if d = [] then ''''
         else if take 2 d = ''91'' \<and> 12 \<le> length d then CHR ''+'' # take 12 d
         else ''+91'' @ drop (length d - 10) d)"

text \<open>The member a reply carries, when it carries one.\<close>

fun reply_member :: "response \<Rightarrow> member option" where
  "reply_member (MemberReply code m) = Some m"
| "reply_member r = None"

text \<open>
  The log entries an operation put in front of the log, and the low-supply warnings
  among them.
\<close>

definition appended_logs :: "server \<Rightarrow> server \<Rightarrow> logentry list" where
  "appended_logs s s' = take (length (logs (db s')) - length (logs (db s))) (logs (db s'))"

definition low_supply_warnings :: "server \<Rightarrow> server \<Rightarrow> nat" where
  "low_supply_warnings s s' = length (filter is_low_supply_warning (appended_logs s s'))"

section \<open>A sample state\<close>

text \<open>
  One family with one head, and one adult member with one medication of supply 6. The
  concrete instances below run the handlers on it.
\<close>

definition demo_user :: user where
  "demo_user =
     \<lparr>user_id = ''u1'', username = JStr ''asha'', password = JStr ''secret'',
      user_phone = ''+919876543210'', role = ''HEAD_OF_FAMILY'', user_familyId = ''f1''\<rparr>"

definition demo_medication :: medication where
  "demo_medication =
     \<lparr>med_id = JStr ''med1'', med_name = JStr ''Metformin'', dosage = JStr ''500mg'',
      med_supply = 6, consumedCount = JNum 3, timesPerDay = 1, doseTimes = [''08:00''],
      intakeTime = JUndefined\<rparr>"

definition demo_member :: member where
  "demo_member =
     \<lparr>member_id = ''m1'', member_familyId = ''f1'', member_name = JStr ''Ravi'',
      ageGroup = JStr ''Adult'', member_phone = ''+919812345678'',
      medications = [demo_medication]\<rparr>"

definition demo_server :: server where
  "demo_server =
     \<lparr>db = \<lparr>users = [demo_user],
             families = [\<lparr>family_id = ''f1'', headUserIds = [''u1'']\<rparr>],
             members = [demo_member], logs = []\<rparr>,
      sessions = Map.empty,
      uuid_source = (\<lambda>n. ''uuid-'' @ replicate n (CHR ''i'')), uuids_drawn = 0,
      token_source = (\<lambda>n. ''token-'' @ replicate n (CHR ''i'')), tokens_drawn = 0,
      clock_source = (\<lambda>n. (''2025-01-01T09:00:00.000Z'', ''09:00'')), clock_reads = 0\<rparr>"

definition demo_trigger :: trigger_body where
  "demo_trigger = \<lparr>tb_memberId = JStr ''m1'', tb_medicationId = JStr ''med1'',
                    tb_doseTime = JUndefined\<rparr>"


text \<open>The sample state with a second head of the family and the member a minor.\<close>

definition demo_two_heads :: server where
  "demo_two_heads =
     demo_server\<lparr>db := (db demo_server)\<lparr>
       users := [demo_user, demo_user\<lparr>user_id := ''u2'', username := JStr ''vikram''\<rparr>],
       families := [\<lparr>family_id = ''f1'', headUserIds = [''u1'', ''u2'']\<rparr>],
       members := [demo_member\<lparr>ageGroup := JStr ''Minor''\<rparr>]\<rparr>\<rparr>"

text \<open>A medication of a request body with nothing but the given dose count.\<close>

definition med_with_count :: "jsval \<Rightarrow> med_body" where
  "med_with_count n =
     \<lparr>mb_id = JUndefined, mb_name = JStr ''Syrup'', mb_dosage = JUndefined,
      mb_supply = JUndefined, mb_consumedCount = JUndefined, mb_timesPerDay = n,
      mb_doseTimes = JUndefined, mb_intakeTime = JUndefined\<rparr>"

text \<open>
  An update of the sample member: its medication \<open>med1\<close> with a \<open>consumedCount\<close> of the
  client's, and a new medication.
\<close>

definition demo_update :: member_body where
  "demo_update =
     \<lparr>b_name = JUndefined, b_ageGroup = JUndefined, b_phone = JUndefined,
      b_medications =
        [(med_with_count (JNum 2))\<lparr>mb_id := JStr ''med1'', mb_consumedCount := JNum 99\<rparr>,
         (med_with_count (JNum 1))\<lparr>mb_consumedCount := JNum 7\<rparr>]\<rparr>"

text \<open>A new member whose medication asks for two and a half doses a day.\<close>

definition demo_fractional :: member_body where
  "demo_fractional =
     \<lparr>b_name = JStr ''Mira'', b_ageGroup = JStr ''Minor'', b_phone = JUndefined,
      b_medications = [med_with_count (JNum (5 / 2))]\<rparr>"

section \<open>The time and dose-schedule normalizers\<close>

lemma digit_cases:
  "is_digit c \<Longrightarrow> digit_val c < 10 \<and> (char_class ''01'' c \<longleftrightarrow> digit_val c < 2)
     \<and> (c = CHR ''2'' \<longleftrightarrow> digit_val c = 2) \<and> (char_class ''0123'' c \<longleftrightarrow> digit_val c < 4)
     \<and> (char_class ''012345'' c \<longleftrightarrow> digit_val c < 6) \<and> \<not> js_ws c"
  unfolding is_digit_def digit_val_def js_ws_def char_class_def by auto

lemma class_digit:
  "char_class ''01'' c \<or> c = CHR ''2'' \<or> char_class ''0123'' c \<or> char_class ''012345'' c \<Longrightarrow> is_digit c"
  unfolding is_digit_def char_class_def by auto

lemma hour_range:
  assumes "is_digit h1" "is_digit h2"
  shows "(char_class ''01'' h1 \<and> is_digit h2 \<or> h1 = CHR ''2'' \<and> char_class ''0123'' h2)
     \<longleftrightarrow> 10 * digit_val h1 + digit_val h2 < 24"
proof -
  have "(digit_val h1 < 2 \<or> digit_val h1 = 2 \<and> digit_val h2 < 4)
      \<longleftrightarrow> 10 * digit_val h1 + digit_val h2 < 24"
    using digit_cases [OF assms(2)] by linarith
  then show ?thesis
    using digit_cases [OF assms(1)] digit_cases [OF assms(2)] assms by simp
qed

lemma minute_range:
  assumes "is_digit m1" "is_digit m2"
  shows "char_class ''012345'' m1 \<longleftrightarrow> 10 * digit_val m1 + digit_val m2 < 60"
proof -
  have "digit_val m1 < 6 \<longleftrightarrow> 10 * digit_val m1 + digit_val m2 < 60"
    using digit_cases [OF assms(2)] by linarith
  then show ?thesis
    using digit_cases [OF assms(1)] by simp
qed


lemma time_regex_iff:
  "time_regex s = (if is_HHMM s then Some (take 2 s, drop 3 s) else None)"
proof (cases s rule: time_regex.cases)
  case (1 h1 h2 c m1 m2)
  show ?thesis
  proof (cases "is_digit h1 \<and> is_digit h2 \<and> is_digit m1 \<and> is_digit m2")
    case True
    then show ?thesis
      unfolding 1 is_HHMM_def using hour_range [of h1 h2] minute_range [of m1 m2]
      by simp
  next
    case False
    then have "\<not> is_HHMM s"
      unfolding 1 is_HHMM_def by auto
    moreover from False have "time_regex s = None"
      unfolding 1 using class_digit [of h1] class_digit [of h2] class_digit [of m1]
      by (simp only: time_regex.simps) metis
    ultimately show ?thesis by simp
  qed
qed (simp_all add: is_HHMM_def)

lemma trim_HHMM: "is_HHMM s \<Longrightarrow> trim s = s"
proof -
  assume a: "is_HHMM s"
  then obtain h1 h2 c m1 m2 where s: "s = [h1, h2, c, m1, m2]"
    unfolding is_HHMM_def by (auto split: list.splits)
  with a have "is_digit h1" "is_digit m2"
    unfolding is_HHMM_def by simp_all
  then have "\<not> js_ws h1" "\<not> js_ws m2"
    using digit_cases by blast+
  then show ?thesis
    unfolding s trim_def by simp
qed

lemma normalizeTime_eq:
  "normalizeTime v =
     (case v of JStr s \<Rightarrow> if is_HHMM (trim s) then trim s else ''08:00'' | _ \<Rightarrow> ''08:00'')"
proof (cases v)
  case (JStr s)
  have e: "trim [] = []" by (simp add: trim_def)
  have n: "\<not> is_HHMM []" by (simp add: is_HHMM_def)
  have r: "is_HHMM t \<Longrightarrow> take 2 t @ CHR '':'' # drop 3 t = t" for t
    unfolding is_HHMM_def by (auto split: list.splits)
  show ?thesis
    unfolding JStr normalizeTime_def time_regex_iff using e n r by (simp add: Let_def)
qed (simp_all add: normalizeTime_def)

lemma HHMM_fallback: "is_HHMM ''08:00''"
  by (simp add: is_HHMM_def is_digit_def digit_val_def)

lemma normalizeTime_HHMM: "is_HHMM (normalizeTime v)"
  unfolding normalizeTime_eq using HHMM_fallback by (simp split: jsval.splits)

lemma normalizeTime_idem: "is_HHMM s \<Longrightarrow> normalizeTime (JStr s) = s"
  unfolding normalizeTime_eq by (simp add: trim_HHMM)


declare dose_loop.simps [simp del]

lemma dose_loop_step:
  "of_nat i < count \<Longrightarrow> dose_loop count provided i result =
     dose_loop count provided (Suc i)
       (result @ [normalizeTime
          (coalesce (js_get provided i) (coalesce (prev_entry result i) (JStr ''08:00'')))])"
  by (subst dose_loop.simps) simp

lemma dose_loop_stop:
  "\<not> of_nat i < count \<Longrightarrow> dose_loop count provided i result = result"
  by (subst dose_loop.simps) simp

lemma dose_loop_length:
  "length result = i \<Longrightarrow> length (dose_loop count provided i result) = max i (nat \<lceil>count\<rceil>)"
proof (induction count provided i result rule: dose_loop.induct)
  case (1 count provided i result)
  show ?case
  proof (cases "of_nat i < count")
    case True
    then have "int i < \<lceil>count\<rceil>" by (simp add: less_ceiling_iff)
    then show ?thesis
      unfolding dose_loop_step [OF True] using 1(1) [OF True] 1(2) by simp
  next
    case False
    then have "\<lceil>count\<rceil> \<le> int i" by (simp add: ceiling_le_iff)
    then show ?thesis
      unfolding dose_loop_stop [OF False] using 1(2) by simp
  qed
qed

lemma dose_loop_HHMM:
  "list_all is_HHMM result \<Longrightarrow> list_all is_HHMM (dose_loop count provided i result)"
proof (induction count provided i result rule: dose_loop.induct)
  case (1 count provided i result)
  show ?case
  proof (cases "of_nat i < count")
    case True
    show ?thesis
      unfolding dose_loop_step [OF True] using 1(1) [OF True] 1(2)
      by (simp add: normalizeTime_HHMM)
  next
    case False
    show ?thesis
      unfolding dose_loop_stop [OF False] by (rule 1(2))
  qed
qed

lemma dose_loop_prefix:
  "j < length result \<Longrightarrow> dose_loop count provided i result ! j = result ! j"
proof (induction count provided i result rule: dose_loop.induct)
  case (1 count provided i result)
  show ?case
  proof (cases "of_nat i < count")
    case True
    show ?thesis
      unfolding dose_loop_step [OF True] using 1(1) [OF True] 1(2)
      by (simp add: nth_append)
  next
    case False
    show ?thesis
      unfolding dose_loop_stop [OF False] by (rule refl)
  qed
qed

lemma dose_loop_entry:
  "length result = i \<Longrightarrow> i \<le> j \<Longrightarrow> j < length (dose_loop count provided i result) \<Longrightarrow>
   dose_loop count provided i result ! j =
     normalizeTime (coalesce (js_get provided j)
       (if j = 0 then JStr ''08:00'' else JStr (dose_loop count provided i result ! (j - 1))))"
proof (induction count provided i result rule: dose_loop.induct)
  case (1 count provided i result)
  show ?case
  proof (cases "of_nat i < count")
    case False
    show ?thesis
      using 1(2-) unfolding dose_loop_stop [OF False] by simp
  next
    case True
    define e where "e = normalizeTime
      (coalesce (js_get provided i) (coalesce (prev_entry result i) (JStr ''08:00'')))"
    define r where "r = result @ [e]"
    have unf: "dose_loop count provided i result = dose_loop count provided (Suc i) r"
      unfolding r_def e_def using True by (rule dose_loop_step)
    have len: "length r = Suc i"
      using 1(2) by (simp add: r_def)
    show ?thesis
    proof (cases "j = i")
      case True
      have "dose_loop count provided (Suc i) r ! i = r ! i"
        by (rule dose_loop_prefix) (simp add: len)
      then have a: "dose_loop count provided (Suc i) r ! i = e"
        using 1(2) by (simp add: r_def nth_append)
      have "0 < i \<Longrightarrow> dose_loop count provided (Suc i) r ! (i - 1) = r ! (i - 1)"
        by (rule dose_loop_prefix) (simp add: len)
      then have b: "0 < i \<Longrightarrow> dose_loop count provided (Suc i) r ! (i - 1) = result ! (i - 1)"
        using 1(2) by (simp add: r_def nth_append)
      have c: "coalesce (prev_entry result i) (JStr ''08:00'') =
          (if i = 0 then JStr ''08:00'' else JStr (result ! (i - 1)))"
        using 1(2) by (simp add: prev_entry_def js_get_def coalesce_def)
      show ?thesis
        unfolding unf True a using b c by (simp add: e_def)
    next
      case False
      with 1(3) have "Suc i \<le> j" by simp
      moreover have "j < length (dose_loop count provided (Suc i) r)"
        using 1(4) unf by simp
      ultimately show ?thesis
        unfolding unf using 1(1) [OF True, folded e_def r_def, OF len] by blast
    qed
  qed
qed

lemma normalizeDoseTimes_loop:
  "normalizeDoseTimes tpd incoming =
     dose_loop (normalizeTimesPerDay tpd) (provided_of incoming) 0 []"
  by (simp add: normalizeDoseTimes_def provided_of_def)

lemma normalizeDoseTimes_length:
  "length (normalizeDoseTimes tpd incoming) = nat \<lceil>normalizeTimesPerDay tpd\<rceil>"
  unfolding normalizeDoseTimes_loop by (simp add: dose_loop_length)

lemma normalizeDoseTimes_HHMM: "list_all is_HHMM (normalizeDoseTimes tpd incoming)"
  unfolding normalizeDoseTimes_loop by (rule dose_loop_HHMM) simp

text \<open>
  Claim C1. For every positive integer \<open>n\<close> and every value passed as the candidate
  list, \<^verbatim>\<open>normalizeDoseTimes(n, candidates)\<close> returns exactly \<open>n\<close> strings, and each of
  them has the strict \<open>HH:MM\<close> shape (hours 00 to 23, minutes 00 to 59).
\<close>

theorem normalizeDoseTimes_count:
  "0 < n \<Longrightarrow>
     int (length (normalizeDoseTimes (JNum (of_int n)) incoming)) = n
     \<and> list_all is_HHMM (normalizeDoseTimes (JNum (of_int n)) incoming)"
  using normalizeDoseTimes_HHMM [of "JNum (of_int n)" incoming]
  by (simp add: normalizeDoseTimes_length normalizeTimesPerDay_def)

lemmas eval_norm = normalizeDoseTimes_def normalizeTimesPerDay_def normalizeTime_def
  coalesce_def js_get_def prev_entry_def trim_def js_ws_def is_digit_def char_class_def
  dose_loop.simps

text \<open>Claim C1 at \<open>n = 3\<close> and the candidates \<^verbatim>\<open>["09:00"]\<close>.\<close>

theorem normalizeDoseTimes_count_witness:
  "int (length (normalizeDoseTimes (JNum 3) (JArr [JStr ''09:00'']))) = 3
     \<and> list_all is_HHMM (normalizeDoseTimes (JNum 3) (JArr [JStr ''09:00'']))"
  using normalizeDoseTimes_count [of 3 "JArr [JStr ''09:00'']"] by simp

text \<open>
  Claim C2 as it is worded fails on a candidate with white space around it: the
  candidate \<^verbatim>\<open>" 09:00"\<close> does not have the \<open>HH:MM\<close> shape, and the entry is neither the
  candidate itself nor \<^verbatim>\<open>"08:00"\<close>, because \<^verbatim>\<open>normalizeTime\<close> trims before it matches.
\<close>

theorem padded_candidate_counterexample:
  "normalizeDoseTimes (JNum 1) (JArr [JStr '' 09:00'']) = [''09:00'']
     \<and> \<not> is_HHMM '' 09:00''"
  by (simp add: eval_norm is_HHMM_def)

lemma normalizeDoseTimes_example_repeat:
  "normalizeDoseTimes (JNum 3) (JArr [JStr ''09:00'']) = [''09:00'', ''09:00'', ''09:00'']"
  by (simp add: eval_norm)

lemma normalizeDoseTimes_example_invalid:
  "normalizeDoseTimes (JNum 2) (JArr [JStr ''9am'', JStr ''14:30'']) = [''08:00'', ''14:30'']"
  by (simp add: eval_norm)

text \<open>
  Claim C2, amended. For each index \<open>i\<close> below the count, with \<open>c\<close> the candidate at
  \<open>i\<close> (undefined past the end of the list): when \<open>c\<close> is undefined or null, the entry
  repeats the entry before it, and is \<^verbatim>\<open>"08:00"\<close> at index 0; when \<open>c\<close> is a string that
  has the \<open>HH:MM\<close> shape once the white space around it is trimmed, the entry is the
  trimmed string (the candidate itself when it has the shape as it is); any other
  candidate gives \<^verbatim>\<open>"08:00"\<close>, not the entry before it. Count 3 with \<^verbatim>\<open>["09:00"]\<close> gives
  three times \<^verbatim>\<open>"09:00"\<close>, and count 2 with \<^verbatim>\<open>["9am", "14:30"]\<close> gives
  \<^verbatim>\<open>["08:00", "14:30"]\<close>.
\<close>

theorem normalizeDoseTimes_entries:
  assumes "i < length (normalizeDoseTimes tpd incoming)"
  shows "(let r = normalizeDoseTimes tpd incoming; c = js_get (provided_of incoming) i
      in (nullish c \<longrightarrow> r ! i = (if i = 0 then ''08:00'' else r ! (i - 1)))
       \<and> (\<forall>s. c = JStr s \<and> is_HHMM (trim s) \<longrightarrow> r ! i = trim s)
       \<and> (\<forall>s. c = JStr s \<and> is_HHMM s \<longrightarrow> r ! i = s)
       \<and> (\<not> nullish c \<and> (\<forall>s. c = JStr s \<longrightarrow> \<not> is_HHMM (trim s)) \<longrightarrow> r ! i = ''08:00''))
     \<and> normalizeDoseTimes (JNum 3) (JArr [JStr ''09:00'']) = [''09:00'', ''09:00'', ''09:00'']
     \<and> normalizeDoseTimes (JNum 2) (JArr [JStr ''9am'', JStr ''14:30'']) = [''08:00'', ''14:30'']"
proof -
  define r where "r = normalizeDoseTimes tpd incoming"
  define c where "c = js_get (provided_of incoming) i"
  have i: "i < length r" using assms by (simp add: r_def)
  have entry: "r ! i = normalizeTime (coalesce c (if i = 0 then JStr ''08:00'' else JStr (r ! (i - 1))))"
    unfolding r_def c_def normalizeDoseTimes_loop
    using assms by (intro dose_loop_entry) (simp_all add: normalizeDoseTimes_loop)
  have "list_all is_HHMM r"
    unfolding r_def by (rule normalizeDoseTimes_HHMM)
  then have prev: "0 < i \<Longrightarrow> is_HHMM (r ! (i - 1))"
    using i by (simp add: list_all_length)
  have absent: "nullish c \<Longrightarrow> r ! i = (if i = 0 then ''08:00'' else r ! (i - 1))"
    using entry prev HHMM_fallback by (simp add: coalesce_def normalizeTime_idem)
  have present: "\<not> nullish c \<Longrightarrow> r ! i = normalizeTime c"
    using entry by (simp add: coalesce_def)
  have valid: "c = JStr s \<Longrightarrow> is_HHMM (trim s) \<Longrightarrow> r ! i = trim s" for s
    using present by (simp add: normalizeTime_eq)
  have strict: "c = JStr s \<Longrightarrow> is_HHMM s \<Longrightarrow> r ! i = s" for s
    using valid [of s] by (simp add: trim_HHMM)
  have invalid: "\<not> nullish c \<Longrightarrow> (\<forall>s. c = JStr s \<longrightarrow> \<not> is_HHMM (trim s)) \<Longrightarrow> r ! i = ''08:00''"
    using present by (cases c) (simp_all add: normalizeTime_eq)
  show ?thesis
    using absent valid strict invalid normalizeDoseTimes_example_repeat normalizeDoseTimes_example_invalid
    unfolding Let_def r_def [symmetric] c_def [symmetric]
    by blast
qed

text \<open>
  Claim C2, amended, at count 3 and \<^verbatim>\<open>["09:00"]\<close>: index 2 has no candidate and repeats
  index 1; index 0 uses its candidate.
\<close>

theorem normalizeDoseTimes_entries_witness:
  "2 < length (normalizeDoseTimes (JNum 3) (JArr [JStr ''09:00'']))
     \<and> normalizeDoseTimes (JNum 3) (JArr [JStr ''09:00'']) ! 2
         = normalizeDoseTimes (JNum 3) (JArr [JStr ''09:00'']) ! 1
     \<and> normalizeDoseTimes (JNum 3) (JArr [JStr ''09:00'']) ! 0 = ''09:00''"
proof -
  have h: "i < length (normalizeDoseTimes (JNum 3) (JArr [JStr ''09:00'']))" if "i < 3" for i
    using that by (simp add: normalizeDoseTimes_length normalizeTimesPerDay_def)
  have d: "is_HHMM ''09:00''"
    by (simp add: is_HHMM_def is_digit_def digit_val_def)
  show ?thesis
    using h [of 2] normalizeDoseTimes_entries [OF h [of 2]] normalizeDoseTimes_entries [OF h [of 0]] d
    by (simp add: Let_def provided_of_def js_get_def)
qed

section \<open>The phone normalizer\<close>

lemma slice_take: "slice 0 12 xs = take 12 xs"
  by (simp add: slice_def rel_index_def Let_def min_def)

lemma slice_from_last: "slice_from (- 10) xs = drop (length xs - 10) xs"
proof -
  have "nat (max (int (length xs) - 10) 0) = length xs - 10" by simp
  then show ?thesis by (simp add: slice_from_def rel_index_def)
qed

lemma startsWith_91: "startsWith ''91'' d = (take 2 d = ''91'')"
  by (simp add: startsWith_def numeral_2_eq_2)

lemma drop_last_nonempty: "d \<noteq> [] \<Longrightarrow> drop (length d - 10) d \<noteq> []"
  by (cases d) simp_all

lemma formatPhoneNumber_digits:
  "formatPhoneNumber (JStr s) =
     (let d = filter is_digit s
      in if d = [] then []
         else if take 2 d = ''91'' \<and> 12 \<le> length d then CHR ''+'' # take 12 d
         else ''+91'' @ drop (length d - 10) d)"
proof (cases "filter is_digit s = []")
  case True
  then show ?thesis
    by (simp add: formatPhoneNumber_def)
next
  case False
  then have "s \<noteq> []" by auto
  with False drop_last_nonempty [OF False] show ?thesis
    by (simp add: formatPhoneNumber_def slice_take slice_from_last startsWith_91 Let_def)
qed

text \<open>
  Claim C6. On every string the phone normalizer computes what the specification
  words: non-digits are stripped; digits that start with 91 and number at least 12 give
  \<open>+\<close> and the first 12 digits; otherwise the result is \<open>+91\<close> and the last 10 digits; no
  digit gives the empty string. The function is total: no input raises an error. The
  three examples of the specification hold.
\<close>

theorem formatPhoneNumber_spec:
  "formatPhoneNumber (JStr s) = phone_spec s
     \<and> formatPhoneNumber (JStr ''9876543210'') = ''+919876543210''
     \<and> formatPhoneNumber (JStr ''919876543210'') = ''+919876543210''
     \<and> formatPhoneNumber (JStr '''') = ''''"
proof -
  have "formatPhoneNumber (JStr s) = phone_spec s" for s
    unfolding formatPhoneNumber_digits phone_spec_def by (rule refl)
  moreover have "phone_spec ''9876543210'' = ''+919876543210''"
    "phone_spec ''919876543210'' = ''+919876543210''" "phone_spec '''' = ''''"
    by (simp_all add: phone_spec_def is_digit_def)
  ultimately show ?thesis by simp
qed

section \<open>Rounding to a double\<close>

declare binade_up.simps [simp del] binade_down.simps [simp del]

lemma binade_up_bounds:
  "1 \<le> x \<Longrightarrow>
     0 \<le> binade_up x \<and> 2 ^ nat (binade_up x) \<le> x \<and> x < 2 * 2 ^ nat (binade_up x)"
proof (induction x rule: binade_up.induct)
  case (1 x)
  show ?case
  proof (cases "x < 2")
    case True
    with 1(2) show ?thesis by (simp add: binade_up.simps)
  next
    case False
    then have "1 \<le> x / 2" by simp
    from 1(1) [OF False this] have ih: "0 \<le> binade_up (x / 2)"
      "2 ^ nat (binade_up (x / 2)) \<le> x / 2" "x / 2 < 2 * 2 ^ nat (binade_up (x / 2))"
      by simp_all
    have e: "binade_up x = 1 + binade_up (x / 2)"
      using False by (simp add: binade_up.simps)
    have n: "nat (1 + binade_up (x / 2)) = Suc (nat (binade_up (x / 2)))"
      using ih(1) by simp
    show ?thesis unfolding e n using ih by simp
  qed
qed


lemma round_half_even_int [simp]: "round_half_even (of_int m) = m"
  by (simp add: round_half_even_def)


lemma round_double_safe:
  assumes "\<bar>n\<bar> \<le> 2 ^ 53"
  shows "round_double (of_int n) = of_int n"
proof (cases "n = 0")
  case True
  then show ?thesis by (simp add: round_double_def)
next
  case False
  define x :: rat where "x = \<bar>of_int n\<bar>"
  have x1: "1 \<le> x" using False by (simp add: x_def)
  have x53: "x \<le> 2 ^ 53"
  proof -
    have "rat_of_int \<bar>n\<bar> \<le> rat_of_int (2 ^ 53)" using assms by (simp only: of_int_le_iff)
    then show ?thesis by (simp add: x_def)
  qed
  define e where "e = binade_up x"
  note b = binade_up_bounds [OF x1, folded e_def]
  have e53: "e \<le> 53"
  proof (rule ccontr)
    assume "\<not> e \<le> 53"
    then have "54 \<le> nat e" by simp
    then have "(2 :: rat) ^ 54 \<le> 2 ^ nat e" by (rule power_increasing) simp
    with b x53 show False by simp
  qed
  have bin: "max (binade \<bar>rat_of_int n\<bar>) (- 1022) = e"
    using x1 b by (simp add: binade_def e_def x_def)
  have "\<exists>m. rat_of_int n / 2 powi (e - 52) = of_int m"
  proof (cases "e \<le> 52")
    case True
    define k where "k = nat (52 - e)"
    have "e - 52 = - int k" using True by (simp add: k_def)
    then have "(2 :: rat) powi (e - 52) = inverse (2 ^ k)"
      by (simp only: power_int_minus power_int_of_nat)
    then have "rat_of_int n / 2 powi (e - 52) = of_int n * 2 ^ nat (52 - e)"
      by (simp add: k_def divide_inverse)
    also have "\<dots> = of_int (n * 2 ^ nat (52 - e))" by simp
    finally show ?thesis by blast
  next
    case False
    with e53 have e: "e = 53" by simp
    with b x53 have "x = 2 ^ 53" by simp
    then have "rat_of_int \<bar>n\<bar> = rat_of_int (2 ^ 53)" by (simp add: x_def)
    then have "\<bar>n\<bar> = 2 ^ 53" by (simp only: of_int_eq_iff)
    then have "n = 2 ^ 53 \<or> n = - (2 ^ 53)" by linarith
    then show ?thesis
    proof
      assume "n = 2 ^ 53"
      then have "rat_of_int n / 2 powi (e - 52) = of_int (2 ^ 52)" by (simp add: e)
      then show ?thesis by blast
    next
      assume "n = - (2 ^ 53)"
      then have "rat_of_int n / 2 powi (e - 52) = of_int (- (2 ^ 52))" by (simp add: e)
      then show ?thesis by blast
    qed
  qed
  then obtain m where m: "rat_of_int n / 2 powi (e - 52) = of_int m" by blast
  have q: "(2 :: rat) powi (e - 52) \<noteq> 0" by simp
  have "of_int m * 2 powi (e - 52) = rat_of_int n"
    using m q by (metis nonzero_divide_eq_eq)
  then show ?thesis
    using False by (simp add: round_double_def bin Let_def m)
qed



lemma double_sum_safe:
  assumes "\<bar>a\<bar> \<le> 2 ^ 53" "\<bar>b\<bar> \<le> 2 ^ 53" "\<bar>a + b\<bar> \<le> 2 ^ 53"
  shows "double_sum (of_int a) (of_int b) = of_int (a + b)"
  using round_double_safe [OF assms(3)]
  by (simp add: double_sum_def round_double_safe [OF assms(1)] round_double_safe [OF assms(2)])

lemma double_sum_small [simp]:
  "double_sum 6 (- 1) = 5" "double_sum 5 (- 1) = 4"
  using double_sum_safe [of 6 "- 1"] double_sum_safe [of 5 "- 1"] by simp_all

text \<open>
  \<^verbatim>\<open>0.2 + 0.1\<close> is \<^verbatim>\<open>0.30000000000000004\<close>, the double \<open>1351079888211149 / 2\<^sup>5\<^sup>2\<close>.
\<close>

lemma double_sum_tenths: "double_sum (2 / 10) (1 / 10) = 1351079888211149 / 2 ^ 52"
  by code_simp


text \<open>
  A \<open>consumedCount\<close> stored as the string \<^verbatim>\<open>"3"\<close> is concatenated, not incremented:
  \<^verbatim>\<open>("3" || 0) + 1\<close> is \<^verbatim>\<open>"31"\<close>.
\<close>

lemma or_zero_plus_string: "or_zero_plus (JStr ''3'') 1 = JStr ''31''"
  by code_simp

section \<open>The state the handlers leave\<close>

lemma find_update_first:
  "find P xs = Some x \<Longrightarrow> P (f x) \<Longrightarrow> find P (update_first P f xs) = Some (f x)"
  by (induction xs) (auto split: if_splits)

lemma find_Some_holds: "find P xs = Some x \<Longrightarrow> P x"
  by (induction xs) (auto split: if_splits)

lemma draws [simp]:
  fixes s :: server
  shows "db (snd (randomUUID s)) = db s" "db (snd (now_ISO s)) = db s"
  "db (snd (currentTimeHHMM s)) = db s" "db (snd (createToken s)) = db s"
  "sessions (snd (randomUUID s)) = sessions s" "sessions (snd (now_ISO s)) = sessions s"
  "sessions (snd (currentTimeHHMM s)) = sessions s" "sessions (snd (createToken s)) = sessions s"
  by (simp_all add: randomUUID_def now_ISO_def currentTimeHHMM_def createToken_def new_Date_def)

lemma unshift_logs_db [simp]:
  fixes s :: server
  shows "logs (db (unshift_logs es s)) = es @ logs (db s)"
  "members (db (unshift_logs es s)) = members (db s)"
  "users (db (unshift_logs es s)) = users (db s)"
  "families (db (unshift_logs es s)) = families (db s)"
  by (simp_all add: unshift_logs_def)

lemma store_medication_db [simp]:
  fixes s :: server
  shows "logs (db (store_medication P Q med s)) = logs (db s)"
  "users (db (store_medication P Q med s)) = users (db s)"
  "families (db (store_medication P Q med s)) = families (db s)"
  by (simp_all add: store_medication_def)

lemma lookup_store:
  fixes s :: server and m :: member and med :: medication
  assumes "find P (members (db s)) = Some m" and "find Q (medications m) = Some med0"
    and "Q med" and "\<And>ms. P (m\<lparr>medications := ms\<rparr>)"
  shows "find P (members (db (store_medication P Q med s)))
           = Some (m\<lparr>medications := update_first Q (\<lambda>x. med) (medications m)\<rparr>)"
    and "find Q (update_first Q (\<lambda>x. med) (medications m)) = Some med"
  using assms by (simp_all add: store_medication_def find_update_first)

text \<open>The sample state, unfolded.\<close>

lemmas demo_defs = demo_server_def demo_member_def demo_medication_def demo_user_def
  demo_trigger_def

section \<open>Consuming a dose\<close>

lemma not_warning_dose [simp]: "\<not> is_low_supply_warning (dose_taken_log i f t med m)"
  by (simp add: is_low_supply_warning_def startsWith_def dose_taken_log_def)

lemma is_warning_low [simp]: "is_low_supply_warning (low_supply_log i f t med m)"
  by (simp add: is_low_supply_warning_def startsWith_def low_supply_log_def)

lemma consume_effect:
  fixes s :: server
  assumes "lookup_medication s (user_familyId user) (JStr memberId) (JStr medId) = Some med"
  shows "\<exists>med' d w.
     lookup_medication (snd (consume s user memberId medId change)) (user_familyId user)
        (JStr memberId) (JStr medId) = Some med'
     \<and> status (fst (consume s user memberId medId change)) = 200
     \<and> med_supply med'
          = max 0 (double_sum (med_supply med) (case change of None \<Rightarrow> - 1 | Some c \<Rightarrow> c))
     \<and> consumedCount med' = or_zero_plus (consumedCount med)
          (case change of None \<Rightarrow> 1 | Some c \<Rightarrow> if c < 0 then - c else 0)
     \<and> \<not> is_low_supply_warning d \<and> is_low_supply_warning w
     \<and> logs (db (snd (consume s user memberId medId change)))
          = (if med_supply med' \<le> 5 \<and> med_supply med > 5 then [w, d] else [d]) @ logs (db s)"
proof -
  define P :: "member \<Rightarrow> bool" where "P = (\<lambda>m. strict_eq (JStr (member_id m)) (JStr memberId)
                     \<and> member_familyId m = user_familyId user)"
  define Q :: "medication \<Rightarrow> bool" where "Q = (\<lambda>x. strict_eq (med_id x) (JStr medId))"
  from assms obtain m where m: "find P (members (db s)) = Some m"
      and med: "find Q (medications m) = Some med"
    unfolding lookup_medication_def P_def Q_def by (auto split: option.splits)
  define c where "c = (case change of None \<Rightarrow> - 1 | Some c \<Rightarrow> c)"
  define med' where "med' = med\<lparr>med_supply := max 0 (double_sum (med_supply med) c),
      consumedCount := or_zero_plus (consumedCount med) (if c < 0 then - c else 0)\<rparr>"
  define s1 where "s1 = store_medication P Q med' s"
  define d where "d = dose_taken_log (fst (randomUUID s1)) (user_familyId user)
      (fst (now_ISO (snd (randomUUID s1)))) med' m"
  define s4 where "s4 = unshift_logs [d] (snd (now_ISO (snd (randomUUID s1))))"
  define w where "w = low_supply_log (fst (randomUUID s4)) (user_familyId user)
      (fst (now_ISO (snd (randomUUID s4)))) med' m"
  define s7 where "s7 = (if max 0 (double_sum (med_supply med) c) \<le> 5 \<and> med_supply med > 5
      then unshift_logs [w] (snd (now_ISO (snd (randomUUID s4)))) else s4)"
  have run: "consume s user memberId medId change =
      (ConsumeReply memberId medId (med_supply med') (consumedCount med')
         (if timesPerDay med' \<noteq> 0 then timesPerDay med' else 1) (doseTimes med'), s7)"
    unfolding consume_def P_def [symmetric] Q_def [symmetric] c_def [symmetric] Let_def
      m med option.case split_def med'_def [symmetric] s1_def [symmetric] d_def [symmetric]
      s4_def [symmetric] w_def [symmetric] s7_def
    by (simp add: med'_def)
  have Qm: "Q med'"
    using find_Some_holds [OF med] by (simp add: Q_def med'_def)
  have Pm: "P (m\<lparr>medications := ms\<rparr>)" for ms
    using find_Some_holds [OF m] by (simp add: P_def)
  note ls = lookup_store [OF m med Qm Pm]
  have mem: "members (db s7) = members (db s1)"
    by (simp add: s7_def s4_def)
  have look: "lookup_medication s7 (user_familyId user) (JStr memberId) (JStr medId) = Some med'"
    unfolding lookup_medication_def mem P_def [symmetric] Q_def [symmetric] s1_def
    using ls by simp
  have lg: "logs (db s7) = (if med_supply med' \<le> 5 \<and> med_supply med > 5 then [w, d] else [d])
      @ logs (db s)"
    by (simp add: s7_def s4_def s1_def med'_def)
  have sup: "med_supply med' = max 0 (double_sum (med_supply med) c)"
    and cnt: "consumedCount med' = or_zero_plus (consumedCount med)
          (case change of None \<Rightarrow> 1 | Some c \<Rightarrow> if c < 0 then - c else 0)"
    by (simp_all add: med'_def c_def split: option.splits)
  have "\<not> is_low_supply_warning d" "is_low_supply_warning w"
    by (simp_all add: d_def w_def)
  with look lg sup cnt show ?thesis
    unfolding run c_def by (intro exI [of _ med'] exI [of _ d] exI [of _ w]) simp
qed

lemma appended_logs_eq:
  fixes s s' :: server
  shows "logs (db s') = es @ logs (db s) \<Longrightarrow> appended_logs s s' = es"
  by (simp add: appended_logs_def)

lemma appended_filter:
  fixes s s' :: server
  shows "logs (db s') = es @ logs (db s) \<Longrightarrow>
    low_supply_warnings s s' = length (filter is_low_supply_warning es)"
  by (simp add: low_supply_warnings_def appended_logs_eq)




text \<open>
  Claim C4. For every consume operation on an existing medication, the new log entries
  stand in front of the old log, and the low-supply warning is among them exactly when
  the supply was above 5 before the operation and is at most 5 after it. In particular,
  consuming with \<open>change = -1\<close> at supply 6 appends exactly one warning and leaves supply
  5, and consuming again appends no warning and leaves supply 4.
\<close>

theorem consume_low_supply_warning:
  fixes s :: server
  assumes "lookup_medication s (user_familyId user) (JStr memberId) (JStr medId) = Some med"
  shows "(let s' = snd (consume s user memberId medId change)
          in logs (db s') = appended_logs s s' @ logs (db s)
           \<and> (\<exists>med'. lookup_medication s' (user_familyId user) (JStr memberId) (JStr medId)
                        = Some med'
                 \<and> low_supply_warnings s s'
                     = (if 5 < med_supply med \<and> med_supply med' \<le> 5 then 1 else 0)))
     \<and> (med_supply med = 6 \<longrightarrow>
          (let s1 = snd (consume s user memberId medId (Some (- 1)));
               s2 = snd (consume s1 user memberId medId (Some (- 1)))
           in low_supply_warnings s s1 = 1 \<and> low_supply_warnings s1 s2 = 0
            \<and> map_option med_supply
                 (lookup_medication s1 (user_familyId user) (JStr memberId) (JStr medId)) = Some 5
            \<and> map_option med_supply
                 (lookup_medication s2 (user_familyId user) (JStr memberId) (JStr medId)) = Some 4))"
proof -
  have general: "logs (db (snd (consume s user memberId medId change)))
        = appended_logs s (snd (consume s user memberId medId change)) @ logs (db s)
      \<and> (\<exists>med'. lookup_medication (snd (consume s user memberId medId change))
                   (user_familyId user) (JStr memberId) (JStr medId) = Some med'
            \<and> med_supply med'
                 = max 0 (double_sum (med_supply med) (case change of None \<Rightarrow> - 1 | Some c \<Rightarrow> c))
            \<and> low_supply_warnings s (snd (consume s user memberId medId change))
                 = (if 5 < med_supply med \<and> med_supply med' \<le> 5 then 1 else 0))"
    if "lookup_medication s (user_familyId user) (JStr memberId) (JStr medId) = Some med"
    for s :: server and med change
  proof -
    from consume_effect [OF that, of change] obtain med' d w where
      look: "lookup_medication (snd (consume s user memberId medId change)) (user_familyId user)
          (JStr memberId) (JStr medId) = Some med'"
      and sup: "med_supply med'
          = max 0 (double_sum (med_supply med) (case change of None \<Rightarrow> - 1 | Some c \<Rightarrow> c))"
      and dw: "\<not> is_low_supply_warning d" "is_low_supply_warning w"
      and lg: "logs (db (snd (consume s user memberId medId change)))
          = (if med_supply med' \<le> 5 \<and> med_supply med > 5 then [w, d] else [d]) @ logs (db s)"
      by blast
    have "low_supply_warnings s (snd (consume s user memberId medId change))
        = (if 5 < med_supply med \<and> med_supply med' \<le> 5 then 1 else 0)"
      unfolding appended_filter [OF lg] using dw by simp
    with look sup lg appended_logs_eq [OF lg] show ?thesis by simp
  qed
  have first: ?thesis if six: "med_supply med \<noteq> 6"
    using general [OF assms, of change] six by (auto simp: Let_def)
  have second: ?thesis if six: "med_supply med = 6"
  proof -
    define s1 where "s1 = snd (consume s user memberId medId (Some (- 1)))"
    from general [OF assms, of "Some (- 1)"] obtain med1 where
      l1: "lookup_medication s1 (user_familyId user) (JStr memberId) (JStr medId) = Some med1"
      and s1: "med_supply med1 = 5" and w1: "low_supply_warnings s s1 = 1"
      unfolding s1_def [symmetric] using six by auto
    define s2 where "s2 = snd (consume s1 user memberId medId (Some (- 1)))"
    from general [OF l1, of "Some (- 1)"] obtain med2 where
      l2: "lookup_medication s2 (user_familyId user) (JStr memberId) (JStr medId) = Some med2"
      and s2: "med_supply med2 = 4" and w2: "low_supply_warnings s1 s2 = 0"
      unfolding s2_def [symmetric] using s1 by auto
    show ?thesis
      using general [OF assms, of change] l1 s1 w1 l2 s2 w2
      unfolding Let_def s1_def [symmetric] s2_def [symmetric] by auto
  qed
  from first second show ?thesis by blast
qed

text \<open>Claim C4 on the sample state, whose medication has supply 6.\<close>

theorem consume_low_supply_warning_witness:
  "low_supply_warnings demo_server
      (snd (consume demo_server demo_user ''m1'' ''med1'' (Some (- 1)))) = 1
   \<and> low_supply_warnings (snd (consume demo_server demo_user ''m1'' ''med1'' (Some (- 1))))
      (snd (consume (snd (consume demo_server demo_user ''m1'' ''med1'' (Some (- 1))))
              demo_user ''m1'' ''med1'' (Some (- 1)))) = 0"
proof -
  have h: "lookup_medication demo_server (user_familyId demo_user) (JStr ''m1'') (JStr ''med1'')
      = Some demo_medication"
    by (simp add: lookup_medication_def demo_defs)
  have six: "med_supply demo_medication = 6"
    by (simp add: demo_defs)
  show ?thesis
    using consume_low_supply_warning [OF h, of None] six by (simp add: Let_def)
qed

section \<open>The reminder trigger\<close>

lemma getFamilyHeads_cong:
  fixes d d' :: database
  shows "users d = users d' \<Longrightarrow> families d = families d' \<Longrightarrow>
    getFamilyHeads d f = getFamilyHeads d' f"
  by (auto simp: getFamilyHeads_def split: option.splits)

lemma log_timestamps [simp]:
  "timestamp (adult_call_log i t member med dt rt) = t"
  "timestamp (adult_escalation_log i t member hn) = t"
  by (simp_all add: adult_call_log_def adult_escalation_log_def)

text \<open>
  Claim C3. For every reminder trigger that finds its member and its medication: a
  member whose \<open>ageGroup\<close> is \<open>Minor\<close> gets exactly one event string and exactly one new log
  entry; any other member (Adult, Senior) gets exactly four event strings and exactly two
  new log entries, and the two bear the same timestamp; and a family with more than one
  head (\<open>getFamilyHeads\<close> returns more than one user) gets one more event and one more
  log entry, after either branch. The new entries stand in front of the old log; the
  entry of the multi-head branch is unshifted last, so the two adult entries are at
  positions \<open>extra\<close> and \<open>extra + 1\<close>.
\<close>

theorem trigger_events_and_logs:
  fixes s :: server
  assumes m: "find (\<lambda>m. strict_eq (JStr (member_id m)) (tb_memberId body)
                     \<and> member_familyId m = user_familyId user) (members (db s)) = Some member"
    and med: "find (\<lambda>x. strict_eq (med_id x) (tb_medicationId body)) (medications member) = Some med"
  shows "let r = trigger s user body; s' = snd r; new = appended_logs s s';
             minor = (ageGroup member = JStr ''Minor'');
             extra = (if length (getFamilyHeads (db s) (member_familyId member)) > 1 then 1 else 0)
         in status (fst r) = 200
          \<and> length (reply_events (fst r)) = (if minor then 1 else 4) + extra
          \<and> logs (db s') = new @ logs (db s)
          \<and> length new = (if minor then 1 else 2) + extra
          \<and> (\<not> minor \<longrightarrow> timestamp (new ! extra) = timestamp (new ! Suc extra))"
proof -
  define P :: "member \<Rightarrow> bool" where "P = (\<lambda>m. strict_eq (JStr (member_id m)) (tb_memberId body)
                     \<and> member_familyId m = user_familyId user)"
  define Q :: "medication \<Rightarrow> bool" where "Q = (\<lambda>x. strict_eq (med_id x) (tb_medicationId body))"
  define med' where "med' = (if doseTimes med = []
      then med\<lparr>doseTimes := [normalizeTime (intakeTime med)],
               timesPerDay := (if timesPerDay med \<noteq> 0 then timesPerDay med else 1)\<rparr>
      else med)"
  define s1 where "s1 = store_medication P Q med' s"
  define dt where "dt = (if truthy (tb_doseTime body) then normalizeTime (tb_doseTime body)
      else (case doseTimes med' of [] \<Rightarrow> ''08:00'' | t # ts \<Rightarrow> if t \<noteq> [] then t else ''08:00''))"
  define heads where "heads = getFamilyHeads (db s1) (member_familyId member)"
  define hn where "hn = (if js_join '', '' (map username heads) \<noteq> []
      then js_join '', '' (map username heads) else ''Head of family'')"
  define tpd where "tpd = (if timesPerDay med' \<noteq> 0 then timesPerDay med' else 1)"
  define rt where "rt = fst (currentTimeHHMM s1)"
  define s2 where "s2 = snd (currentTimeHHMM s1)"
  define ml where "ml = minor_log (fst (randomUUID s2)) (fst (now_ISO (snd (randomUUID s2))))
      member med' dt hn"
  define s6m where "s6m = unshift_logs [ml] (snd (now_ISO (snd (randomUUID s2))))"
  define s3 where "s3 = snd (now_ISO s2)"
  define s4 where "s4 = snd (randomUUID s3)"
  define ac where "ac = adult_call_log (fst (randomUUID s3)) (fst (now_ISO s2)) member med' dt rt"
  define ae where "ae = adult_escalation_log (fst (randomUUID s4)) (fst (now_ISO s2)) member hn"
  define s6a where "s6a = unshift_logs [ac, ae] (snd (randomUUID s4))"
  define s6 where "s6 = (if ageGroup member = JStr ''Minor'' then s6m else s6a)"
  define events where "events = (if ageGroup member = JStr ''Minor''
      then [minor_event med' tpd dt hn rt] else adult_events member med' dt hn rt)"
  define he where "he = head_escalation_log (fst (randomUUID s6))
      (fst (now_ISO (snd (randomUUID s6)))) member hn"
  define s9 where "s9 = (if length heads > 1
      then unshift_logs [he] (snd (now_ISO (snd (randomUUID s6)))) else s6)"
  define new where "new = (if length heads > 1 then [he] else [])
      @ (if ageGroup member = JStr ''Minor'' then [ml] else [ac, ae])"
  have run: "trigger s user body =
      (TriggerReply member med' dt rt
         (events @ (if length heads > 1 then [backup_event hn] else [])), s9)"
    unfolding trigger_def P_def [symmetric] Q_def [symmetric] Let_def m [unfolded P_def [symmetric]]
      med [unfolded Q_def [symmetric]] option.case split_def med'_def [symmetric]
      s1_def [symmetric] dt_def [symmetric] heads_def [symmetric] hn_def [symmetric]
      tpd_def [symmetric] rt_def [symmetric] s2_def [symmetric]
    by (simp add: s9_def s6_def s6m_def s6a_def s4_def s3_def events_def ml_def ac_def ae_def he_def)
  have heads: "getFamilyHeads (db s) (member_familyId member) = heads"
    unfolding heads_def by (rule getFamilyHeads_cong) (simp_all add: s1_def)
  have len: "length events = (if ageGroup member = JStr ''Minor'' then 1 else 4)"
    by (simp add: events_def adult_events_def)
  have "logs (db s6) = (if ageGroup member = JStr ''Minor'' then [ml] else [ac, ae]) @ logs (db s)"
    by (simp add: s6_def s6m_def s6a_def s4_def s3_def s2_def s1_def)
  then have lg: "logs (db s9) = new @ logs (db s)"
    by (simp add: s9_def new_def)
  have app: "appended_logs s s9 = new"
    using lg by (rule appended_logs_eq)
  have ts: "ageGroup member \<noteq> JStr ''Minor'' \<Longrightarrow>
      timestamp (new ! (if length heads > 1 then 1 else 0))
        = timestamp (new ! Suc (if length heads > 1 then 1 else 0))"
    by (simp add: new_def ac_def ae_def)
  have ln: "length new = (if ageGroup member = JStr ''Minor'' then 1 else 2)
      + (if length heads > 1 then 1 else 0)"
    by (simp add: new_def)
  show ?thesis
    unfolding Let_def run fst_conv snd_conv heads app
    using len lg ts ln by simp
qed

text \<open>
  Claim C3 on the sample state: an adult member of a family with one head gets four
  events and two log entries with one timestamp; and on the state with two heads and the
  member a minor: two events and two log entries.
\<close>

theorem trigger_events_and_logs_witness:
  "status (fst (trigger demo_server demo_user demo_trigger)) = 200
     \<and> length (reply_events (fst (trigger demo_server demo_user demo_trigger))) = 4
     \<and> length (appended_logs demo_server (snd (trigger demo_server demo_user demo_trigger))) = 2
     \<and> timestamp (appended_logs demo_server (snd (trigger demo_server demo_user demo_trigger)) ! 0)
        = timestamp (appended_logs demo_server (snd (trigger demo_server demo_user demo_trigger)) ! 1)
     \<and> length (reply_events (fst (trigger demo_two_heads demo_user demo_trigger))) = 2
     \<and> length (appended_logs demo_two_heads
          (snd (trigger demo_two_heads demo_user demo_trigger))) = 2"
proof -
  have m: "find (\<lambda>m. strict_eq (JStr (member_id m)) (tb_memberId demo_trigger)
        \<and> member_familyId m = user_familyId demo_user) (members (db demo_server)) = Some demo_member"
    by (simp add: demo_defs)
  have med: "find (\<lambda>x. strict_eq (med_id x) (tb_medicationId demo_trigger))
        (medications demo_member) = Some demo_medication"
    by (simp add: demo_defs)
  have heads: "getFamilyHeads (db demo_server) (member_familyId demo_member) = [demo_user]"
    by (simp add: demo_defs getFamilyHeads_def List.map_filter_simps)
  have adult: "ageGroup demo_member \<noteq> JStr ''Minor''"
    by (simp add: demo_defs)
  have m2: "find (\<lambda>m. strict_eq (JStr (member_id m)) (tb_memberId demo_trigger)
        \<and> member_familyId m = user_familyId demo_user) (members (db demo_two_heads))
      = Some (demo_member\<lparr>ageGroup := JStr ''Minor''\<rparr>)"
    by (simp add: demo_two_heads_def demo_defs)
  have med2: "find (\<lambda>x. strict_eq (med_id x) (tb_medicationId demo_trigger))
        (medications (demo_member\<lparr>ageGroup := JStr ''Minor''\<rparr>)) = Some demo_medication"
    by (simp add: demo_defs)
  have heads2: "length (getFamilyHeads (db demo_two_heads)
      (member_familyId (demo_member\<lparr>ageGroup := JStr ''Minor''\<rparr>))) = 2"
    by (simp add: demo_two_heads_def demo_defs getFamilyHeads_def List.map_filter_simps)
  have one: "status (fst (trigger demo_server demo_user demo_trigger)) = 200
     \<and> length (reply_events (fst (trigger demo_server demo_user demo_trigger))) = 4
     \<and> length (appended_logs demo_server (snd (trigger demo_server demo_user demo_trigger))) = 2
     \<and> timestamp (appended_logs demo_server (snd (trigger demo_server demo_user demo_trigger)) ! 0)
        = timestamp (appended_logs demo_server (snd (trigger demo_server demo_user demo_trigger)) ! 1)"
    using trigger_events_and_logs [OF m med] heads adult by (simp add: Let_def)
  have two: "length (reply_events (fst (trigger demo_two_heads demo_user demo_trigger))) = 2
     \<and> length (appended_logs demo_two_heads
          (snd (trigger demo_two_heads demo_user demo_trigger))) = 2"
    using trigger_events_and_logs [OF m2 med2] heads2 by (simp add: Let_def)
  from one two show ?thesis by simp
qed

section \<open>Requests that name a missing entity\<close>

text \<open>
  Claim C8 says that a reminder trigger whose \<open>medicationId\<close> matches no medication of
  the member it found answers 404. On the sample state the trigger answers 400
  (\<^verbatim>\<open>Medication not found for member\<close>) and leaves the state as it is, while the consume
  handler answers 404 for the same missing medication.
\<close>

theorem trigger_unknown_medication:
  "trigger demo_server demo_user
      \<lparr>tb_memberId = JStr ''m1'', tb_medicationId = JStr ''med9'', tb_doseTime = JUndefined\<rparr>
     = (Failure 400 ''Medication not found for member'', demo_server)
   \<and> consume demo_server demo_user ''m1'' ''med9'' None
     = (Failure 404 ''Medication not found'', demo_server)"
  by (simp add: trigger_def consume_def demo_defs)

text \<open>
  What does hold of the requests that name a missing entity: a missing member is a 404
  in the update, consume and trigger handlers, a missing medication is a 404 in the
  consume handler and a 400 in the trigger, and the state stays as it is every time.
\<close>

lemma not_found_unchanged:
  fixes s :: server
  shows "find (\<lambda>m. strict_eq (JStr (member_id m)) (tb_memberId body)
              \<and> member_familyId m = user_familyId user) (members (db s)) = None
     \<Longrightarrow> trigger s user body = (Failure 404 ''Member not found'', s)"
    and "find (\<lambda>m. strict_eq (JStr (member_id m)) (JStr memberId)
              \<and> member_familyId m = user_familyId user) (members (db s)) = None
     \<Longrightarrow> consume s user memberId medId change = (Failure 404 ''Member not found'', s)"
    and "lookup_medication s (user_familyId user) (JStr memberId) (JStr medId) = None
     \<Longrightarrow> status (fst (consume s user memberId medId change)) = 404
         \<and> snd (consume s user memberId medId change) = s"
    and "isHeadOfFamily user \<Longrightarrow>
       find (\<lambda>m. member_id m = memberId \<and> member_familyId m = user_familyId user)
         (members (db s)) = None
     \<Longrightarrow> updateMember s user memberId mbody = (Failure 404 ''Member not found'', s)"
    and "lookup_medication s (user_familyId user) (tb_memberId body) (tb_medicationId body) = None
     \<Longrightarrow> status (fst (trigger s user body)) \<in> {400, 404}
         \<and> snd (trigger s user body) = s"
proof -
  have fi: "find P xs = None \<Longrightarrow> findIndex P xs = None" for P :: "member \<Rightarrow> bool" and xs
    by (induction xs) (auto split: if_splits)
  show "find (\<lambda>m. strict_eq (JStr (member_id m)) (tb_memberId body)
              \<and> member_familyId m = user_familyId user) (members (db s)) = None
     \<Longrightarrow> trigger s user body = (Failure 404 ''Member not found'', s)"
    by (simp add: trigger_def)
  show "find (\<lambda>m. strict_eq (JStr (member_id m)) (JStr memberId)
              \<and> member_familyId m = user_familyId user) (members (db s)) = None
     \<Longrightarrow> consume s user memberId medId change = (Failure 404 ''Member not found'', s)"
    by (simp add: consume_def)
  show "lookup_medication s (user_familyId user) (JStr memberId) (JStr medId) = None
     \<Longrightarrow> status (fst (consume s user memberId medId change)) = 404
         \<and> snd (consume s user memberId medId change) = s"
    by (auto simp: consume_def lookup_medication_def split: option.splits)
  show "isHeadOfFamily user \<Longrightarrow>
       find (\<lambda>m. member_id m = memberId \<and> member_familyId m = user_familyId user)
         (members (db s)) = None
     \<Longrightarrow> updateMember s user memberId mbody = (Failure 404 ''Member not found'', s)"
    by (simp add: updateMember_def fi)
  show "lookup_medication s (user_familyId user) (tb_memberId body) (tb_medicationId body) = None
     \<Longrightarrow> status (fst (trigger s user body)) \<in> {400, 404}
         \<and> snd (trigger s user body) = s"
    by (auto simp: trigger_def lookup_medication_def split: option.splits)
qed

section \<open>Registration\<close>

text \<open>
  Claim C9 as it is worded fails on a request that has the username of an existing
  user and no password: the check for the two required fields comes first, and the
  answer is 400, not 409.
\<close>

theorem register_missing_password_counterexample:
  "list_ex (\<lambda>u. username u = JStr ''asha'') (users (db demo_server))
   \<and> status (fst (register demo_server
        \<lparr>rb_username = JStr ''asha'', rb_password = JUndefined, rb_phone = JUndefined,
         rb_isHead = JUndefined\<rparr>)) = 400"
  by (simp add: register_def demo_defs)

lemma strict_eq_string [simp]: "strict_eq a (JStr n) = (a = JStr n)"
  by (cases a) auto

text \<open>
  Claim C9, amended. For every state that holds a user whose username is the string
  \<open>name\<close>, a registration request with that username leaves the whole state as it is
  (no user, family or session is created); its answer is the conflict 409 when the
  username and the password of the request are both non-empty, and 400 otherwise.
\<close>

theorem register_duplicate_username:
  fixes s :: server
  assumes "list_ex (\<lambda>u. username u = JStr name) (users (db s))"
    and "rb_username body = JStr name"
  shows "snd (register s body) = s
     \<and> status (fst (register s body))
         = (if name \<noteq> [] \<and> truthy (rb_password body) then 409 else 400)"
  using assms by (simp add: register_def Let_def)

text \<open>
  Claim C9, amended, on the sample state: a second registration of \<open>asha\<close> with a
  password is a 409 and changes nothing.
\<close>

theorem register_duplicate_username_witness:
  "snd (register demo_server
        \<lparr>rb_username = JStr ''asha'', rb_password = JStr ''other'', rb_phone = JUndefined,
         rb_isHead = JUndefined\<rparr>) = demo_server
   \<and> status (fst (register demo_server
        \<lparr>rb_username = JStr ''asha'', rb_password = JStr ''other'', rb_phone = JUndefined,
         rb_isHead = JUndefined\<rparr>)) = 409"
proof -
  have h: "list_ex (\<lambda>u. username u = JStr ''asha'') (users (db demo_server))"
    by (simp add: demo_defs)
  show ?thesis
    using register_duplicate_username [OF h, of
        "\<lparr>rb_username = JStr ''asha'', rb_password = JStr ''other'', rb_phone = JUndefined,
          rb_isHead = JUndefined\<rparr>"]
    by simp
qed

section \<open>Updating a member\<close>

lemma findIndex_find:
  "findIndex P xs = Some i \<Longrightarrow> i < length xs \<and> find P xs = Some (xs ! i)"
proof (induction xs arbitrary: i)
  case Nil
  then show ?case by simp
next
  case (Cons x xs)
  then show ?case by (cases "P x") auto
qed

lemma find_list_update:
  "findIndex P xs = Some i \<Longrightarrow> P y \<Longrightarrow> find P (xs[i := y]) = Some y"
proof (induction xs arbitrary: i)
  case Nil
  then show ?case by simp
next
  case (Cons x xs)
  then show ?case by (cases "P x") auto
qed

lemma update_meds_consumedCount:
  "map consumedCount (fst (update_meds existing meds s)) =
     map (\<lambda>med. case find (\<lambda>x. strict_eq (med_id x) (mb_id med)) existing of
                   Some e \<Rightarrow> consumedCount e | None \<Rightarrow> JNum 0) meds"
  by (induction meds arbitrary: s) (simp_all add: Let_def split_def)

lemma update_meds_db [simp]: "db (snd (update_meds existing meds s)) = db s"
  by (induction meds arbitrary: s)
    (simp_all add: Let_def split_def med_identifier_def randomUUID_def)

text \<open>
  Claim C10. For every successful \<^verbatim>\<open>PUT /api/members/:id\<close>, the member the request
  names is replaced in the stored state by the updated member the reply carries, and
  the medications of the updated member are those of the request body, in order; the one
  at index \<open>i\<close> has the \<open>consumedCount\<close> of the first existing medication of that member with
  the same id when there is one, whatever \<open>consumedCount\<close> the request carries, and 0 when
  there is none.
\<close>

theorem update_keeps_consumedCount:
  fixes s :: server
  assumes "status (fst (updateMember s user memberId body)) = 200"
    and "i < length (b_medications body)"
  shows "\<exists>existing updated idx.
       find (\<lambda>m. member_id m = memberId \<and> member_familyId m = user_familyId user)
         (members (db s)) = Some existing
     \<and> findIndex (\<lambda>m. member_id m = memberId \<and> member_familyId m = user_familyId user)
         (members (db s)) = Some idx
     \<and> reply_member (fst (updateMember s user memberId body)) = Some updated
     \<and> members (db (snd (updateMember s user memberId body)))
         = (members (db s))[idx := updated]
     \<and> find (\<lambda>m. member_id m = memberId \<and> member_familyId m = user_familyId user)
         (members (db (snd (updateMember s user memberId body)))) = Some updated
     \<and> length (medications updated) = length (b_medications body)
     \<and> (\<forall>e. find (\<lambda>x. strict_eq (med_id x) (mb_id (b_medications body ! i)))
               (medications existing) = Some e
            \<longrightarrow> consumedCount (medications updated ! i) = consumedCount e)
     \<and> (find (\<lambda>x. strict_eq (med_id x) (mb_id (b_medications body ! i)))
               (medications existing) = None
            \<longrightarrow> consumedCount (medications updated ! i) = JNum 0)"
proof -
  define P :: "member \<Rightarrow> bool" where
    "P = (\<lambda>m. member_id m = memberId \<and> member_familyId m = user_familyId user)"
  from assms(1) have head: "isHeadOfFamily user"
    by (auto simp: updateMember_def split: if_splits)
  from assms(1) head obtain idx where idx: "findIndex P (members (db s)) = Some idx"
    by (auto simp: updateMember_def P_def split: option.splits)
  define existing where "existing = members (db s) ! idx"
  define meds where "meds = fst (update_meds (medications existing) (b_medications body) s)"
  define updated where "updated = existing\<lparr>
      member_name := coalesce (b_name body) (member_name existing),
      ageGroup := coalesce (b_ageGroup body) (ageGroup existing),
      member_phone := (if b_phone body \<noteq> JUndefined then formatPhoneNumber (b_phone body)
                       else member_phone existing),
      medications := meds\<rparr>"
  have found: "find P (members (db s)) = Some existing"
    using findIndex_find [OF idx] by (simp add: existing_def)
  have upd: "reply_member (fst (updateMember s user memberId body)) = Some updated"
    using head idx
    by (simp add: updateMember_def P_def [symmetric] Let_def split_def meds_def existing_def
        updated_def)
  have stored: "members (db (snd (updateMember s user memberId body)))
      = (members (db s))[idx := updated]"
    using head idx
    by (simp add: updateMember_def P_def [symmetric] Let_def split_def meds_def existing_def
        updated_def)
  have "P existing"
    using found by (rule find_Some_holds)
  then have "P updated"
    by (simp add: P_def updated_def)
  with idx have again: "find P ((members (db s))[idx := updated]) = Some updated"
    by (rule find_list_update)
  have ms: "medications updated = meds"
    by (simp add: updated_def)
  have cc: "map consumedCount meds =
      map (\<lambda>med. case find (\<lambda>x. strict_eq (med_id x) (mb_id med)) (medications existing) of
                    Some e \<Rightarrow> consumedCount e | None \<Rightarrow> JNum 0) (b_medications body)"
    unfolding meds_def by (rule update_meds_consumedCount)
  then have len: "length meds = length (b_medications body)"
    by (metis length_map)
  have "consumedCount (meds ! i) = map consumedCount meds ! i"
    using assms(2) len by simp
  then have "consumedCount (meds ! i) =
      (case find (\<lambda>x. strict_eq (med_id x) (mb_id (b_medications body ! i))) (medications existing) of
         Some e \<Rightarrow> consumedCount e | None \<Rightarrow> JNum 0)"
    unfolding cc using assms(2) by simp
  with found idx upd stored again ms len show ?thesis
    unfolding P_def by (intro exI [of _ existing] exI [of _ updated] exI [of _ idx]) auto
qed

text \<open>
  Claim C10 on the sample state: the request gives \<open>med1\<close> a \<open>consumedCount\<close> of 99 and a
  new medication one of 7; the updated member, which is the member the state holds after
  the request, has 3 (the stored value) and 0.
\<close>

theorem update_keeps_consumedCount_witness:
  "\<exists>updated. reply_member (fst (updateMember demo_server demo_user ''m1'' demo_update))
       = Some updated
     \<and> members (db (snd (updateMember demo_server demo_user ''m1'' demo_update))) = [updated]
     \<and> map consumedCount (medications updated) = [JNum 3, JNum 0]"
proof -
  have st: "status (fst (updateMember demo_server demo_user ''m1'' demo_update)) = 200"
    by (simp add: updateMember_def isHeadOfFamily_def demo_defs Let_def split_def)
  have n: "length (b_medications demo_update) = 2"
    by (simp add: demo_update_def)
  have i0: "0 < length (b_medications demo_update)"
    and i1: "1 < length (b_medications demo_update)"
    using n by simp_all
  have ex: "find (\<lambda>m. member_id m = ''m1'' \<and> member_familyId m = user_familyId demo_user)
      (members (db demo_server)) = Some demo_member"
    and ix: "findIndex (\<lambda>m. member_id m = ''m1'' \<and> member_familyId m = user_familyId demo_user)
      (members (db demo_server)) = Some 0"
    and ms: "members (db demo_server) = [demo_member]"
    by (simp_all add: demo_defs)
  have f0: "find (\<lambda>x. strict_eq (med_id x) (mb_id (b_medications demo_update ! 0)))
      (medications demo_member) = Some demo_medication"
    and f1: "find (\<lambda>x. strict_eq (med_id x) (mb_id (b_medications demo_update ! 1)))
      (medications demo_member) = None"
    by (simp_all add: demo_defs demo_update_def med_with_count_def)
  have c: "consumedCount demo_medication = JNum 3"
    by (simp add: demo_defs)
  let ?P = "\<lambda>m. member_id m = ''m1'' \<and> member_familyId m = user_familyId demo_user"
  let ?r = "updateMember demo_server demo_user ''m1'' demo_update"
  from update_keeps_consumedCount [OF st i0] obtain e0 u0 j0 where
    a: "find ?P (members (db demo_server)) = Some e0"
      "findIndex ?P (members (db demo_server)) = Some j0"
      "reply_member (fst ?r) = Some u0"
      "members (db (snd ?r)) = (members (db demo_server))[j0 := u0]"
      "length (medications u0) = length (b_medications demo_update)"
      "\<forall>e. find (\<lambda>x. strict_eq (med_id x) (mb_id (b_medications demo_update ! 0)))
              (medications e0) = Some e
           \<longrightarrow> consumedCount (medications u0 ! 0) = consumedCount e"
    by (elim exE conjE) simp
  from update_keeps_consumedCount [OF st i1] obtain e1 u1 where
    b: "find ?P (members (db demo_server)) = Some e1"
      "reply_member (fst ?r) = Some u1"
      "find (\<lambda>x. strict_eq (med_id x) (mb_id (b_medications demo_update ! 1)))
              (medications e1) = None
           \<longrightarrow> consumedCount (medications u1 ! 1) = JNum 0"
    by (elim exE conjE) simp
  have e: "e0 = demo_member" "e1 = demo_member" "j0 = 0" "u1 = u0"
    using a(1-3) b(1-2) ex ix by simp_all
  have c0: "consumedCount (medications u0 ! 0) = JNum 3"
    using a(6) f0 c unfolding e by simp
  have c1: "consumedCount (medications u0 ! 1) = JNum 0"
    using b(3) f1 unfolding e by simp
  have st': "members (db (snd ?r)) = [u0]"
    using a(4) unfolding e ms by simp
  have "length xs = 2 \<Longrightarrow> map g xs = [g (xs ! 0), g (xs ! 1)]"
    for g :: "medication \<Rightarrow> jsval" and xs
    by (cases xs; cases "tl xs") auto
  then have "map consumedCount (medications u0) = [JNum 3, JNum 0]"
    using a(5) n c0 c1 by simp
  with a(3) st' show ?thesis
    by (intro exI [of _ u0]) simp
qed

section \<open>The length of the dose schedule\<close>

text \<open>
  Claim C7 says that \<open>doseTimes.length = timesPerDay\<close> in every reachable state.
  \<^verbatim>\<open>normalizeTimesPerDay\<close> returns a positive number as it is, so a request with
  \<open>timesPerDay = 2.5\<close> stores 2.5, and the loop \<^verbatim>\<open>for (i = 0; i < 2.5; i++)\<close> pushes three
  dose times: creating a member on the sample state leaves a medication with
  \<open>timesPerDay = 5/2\<close> and three dose times.
\<close>

theorem createMember_fractional_count:
  "\<exists>m. reply_member (fst (createMember demo_server demo_user demo_fractional)) = Some m
     \<and> status (fst (createMember demo_server demo_user demo_fractional)) = 201
     \<and> members (db (snd (createMember demo_server demo_user demo_fractional)))
         = [demo_member, m]
     \<and> map timesPerDay (medications m) = [5 / 2]
     \<and> map doseTimes (medications m) = [[''08:00'', ''08:00'', ''08:00'']]"
  by (simp add: createMember_def isHeadOfFamily_def demo_defs demo_fractional_def
      med_with_count_def Let_def split_def med_identifier_def randomUUID_def now_ISO_def
      new_Date_def unshift_logs_def eval_norm)

text \<open>
  What the write paths do establish: \<open>timesPerDay\<close> is positive and the number of dose
  times is its ceiling, which is \<open>timesPerDay\<close> itself exactly when that is an integer.
\<close>

lemma normalizeTimesPerDay_positive: "0 < normalizeTimesPerDay v"
proof -
  have "0 < (case p of Some parsed \<Rightarrow> if parsed > 0 then rat_of_int parsed else 1 | None \<Rightarrow> 1)"
    for p :: "int option"
    by (cases p) simp_all
  then show ?thesis
    unfolding normalizeTimesPerDay_def by (cases v) simp_all
qed

lemma normalizeTimesPerDay_number: "0 < x \<Longrightarrow> normalizeTimesPerDay (JNum x) = x"
  by (simp add: normalizeTimesPerDay_def)

lemma normalized_schedule:
  "0 < normalizeTimesPerDay v
     \<and> int (length (normalizeDoseTimes (JNum (normalizeTimesPerDay v)) incoming))
         = \<lceil>normalizeTimesPerDay v\<rceil>"
proof -
  have p: "0 < normalizeTimesPerDay v"
    by (rule normalizeTimesPerDay_positive)
  then have "0 < \<lceil>normalizeTimesPerDay v\<rceil>"
    by simp
  with p show ?thesis
    by (simp add: normalizeDoseTimes_length normalizeTimesPerDay_number)
qed

lemma create_meds_lengths:
  "list_all (\<lambda>m. 0 < timesPerDay m \<and> int (length (doseTimes m)) = \<lceil>timesPerDay m\<rceil>)
     (fst (create_meds meds s))"
  by (induction meds arbitrary: s)
    (simp_all add: Let_def split_def normalized_schedule [THEN conjunct1]
      normalized_schedule [THEN conjunct2])

lemma update_meds_lengths:
  "list_all (\<lambda>m. 0 < timesPerDay m \<and> int (length (doseTimes m)) = \<lceil>timesPerDay m\<rceil>)
     (fst (update_meds existing meds s))"
  by (induction meds arbitrary: s)
    (simp_all add: Let_def split_def normalized_schedule [THEN conjunct1]
      normalized_schedule [THEN conjunct2])

text \<open>
  Claim C7 on the sample state: the stored medication does not satisfy
  \<open>doseTimes.length = timesPerDay\<close>.
\<close>

theorem createMember_fractional_count_witness:
  "\<exists>m. reply_member (fst (createMember demo_server demo_user demo_fractional)) = Some m
     \<and> map (\<lambda>x. rat_of_nat (length (doseTimes x)) = timesPerDay x) (medications m) = [False]"
proof -
  from createMember_fractional_count obtain m where
    "reply_member (fst (createMember demo_server demo_user demo_fractional)) = Some m"
    "map timesPerDay (medications m) = [5 / 2]"
    "map doseTimes (medications m) = [[''08:00'', ''08:00'', ''08:00'']]"
    by auto
  then show ?thesis by auto
qed

end
